theory Spec2Isabelle
  imports Complex_Main "HOL-Library.AList"
begin

section \<open>The battery (src/common/battery.py)\<close>

text \<open>
  The class \<^verbatim>\<open>Battery\<close> has four instance attributes set by the constructor
  and the flag \<^verbatim>\<open>returning\<close>. Python integers are unbounded, so every
  numeric attribute is an \<^typ>\<open>int\<close>; nothing in the class restricts the sign of a rate.
  \<^verbatim>\<open>CRITICAL_BATTERY_THRESHOLD\<close> is a class attribute with the fixed value 90.
\<close>

record Battery =
  level :: int
  drain_rate :: int
  recharge_rate :: int
  LOW_BATTERY_THRESHOLD :: int
  returning :: bool

definition CRITICAL_BATTERY_THRESHOLD :: int where
  "CRITICAL_BATTERY_THRESHOLD = 90"

definition RECHARGE_RATE :: int where
  "RECHARGE_RATE = 10"

definition DRAIN_RATE :: int where
  "DRAIN_RATE = 3"

text \<open>
  \<^verbatim>\<open>Battery.__init__(start, drain, recharge, low_threshold)\<close>; the defaults are
  100, \<^verbatim>\<open>DRAIN_RATE\<close>, \<^verbatim>\<open>RECHARGE_RATE\<close> and 20.
\<close>

definition Battery_init :: "int \<Rightarrow> int \<Rightarrow> int \<Rightarrow> int \<Rightarrow> Battery" where
  "Battery_init start drain recharge low_threshold =
     \<lparr>level = start, drain_rate = drain, recharge_rate = recharge,
      LOW_BATTERY_THRESHOLD = low_threshold, returning = False\<rparr>"

text \<open>
  \<^verbatim>\<open>Battery.tick(charging)\<close> mutates the object and returns the new level; the
  model returns the mutated battery, whose \<^const>\<open>level\<close> is the returned value.
  The two assignments to \<^verbatim>\<open>returning\<close> are an \<^verbatim>\<open>if\<close>/\<^verbatim>\<open>elif\<close> on the
  level that has just been written.
\<close>

definition tick :: "Battery \<Rightarrow> bool \<Rightarrow> Battery" where
  "tick b charging =
     (let b1 = (if charging
                then b\<lparr>level := min 100 (level b + recharge_rate b)\<rparr>
                else b\<lparr>level := max 0 (level b - drain_rate b)\<rparr>)
      in if \<not> returning b1 \<and> level b1 < LOW_BATTERY_THRESHOLD b1
         then b1\<lparr>returning := True\<rparr>
         else if returning b1 \<and> level b1 \<ge> CRITICAL_BATTERY_THRESHOLD
         then b1\<lparr>returning := False\<rparr>
         else b1)"

text \<open>
  A sequence of ticks, one charging flag per tick: the list of the batteries after each
  tick, in order.
\<close>

fun tick_trace :: "Battery \<Rightarrow> bool list \<Rightarrow> Battery list" where
  "tick_trace b [] = []"
| "tick_trace b (c # cs) = tick b c # tick_trace (tick b c) cs"

section \<open>Messages (src/common/messages.py)\<close>

text \<open>
  Bytes on the wire and in files are strings of characters. \<^verbatim>\<open>DELIM\<close> is the
  newline character.
\<close>

type_synonym bytes = string

definition DELIM :: string where
  "DELIM = [CHR 0x0A]"

text \<open>
  The dataclass \<^verbatim>\<open>SensorReading\<close>. Python floats are modelled as real numbers:
  rounding, infinities and NaN are outside this model.
\<close>

record SensorReading =
  sensor_id :: string
  temperature :: real
  humidity :: real
  timestamp :: string

text \<open>
  An anomaly event is the dictionary built in the forwarding loop, with the keys
  \<^verbatim>\<open>sensor_id\<close>, \<^verbatim>\<open>val\<close> (the list of temperature and humidity) and
  \<^verbatim>\<open>ts\<close>.
\<close>

record anomaly_event =
  anomaly_sensor_id :: string
  val :: "real list"
  ts :: string

text \<open>
  The dataclass \<^verbatim>\<open>DroneReport\<close>; its field \<^verbatim>\<open>timestamp\<close> is named
  \<open>report_timestamp\<close> here, since the reading already has a field of that name.
\<close>

record DroneReport =
  drone_id :: string
  report_timestamp :: string
  battery_level :: int
  status :: string
  avg_temperature :: real
  avg_humidity :: real
  sensor_count :: int
  anomalies :: "anomaly_event list"

text \<open>
  \<^verbatim>\<open>DroneReport.to_bytes\<close> is \<^verbatim>\<open>(json.dumps(asdict(self)) + DELIM).encode()\<close>.
  \<^verbatim>\<open>json.dumps\<close> belongs to the Python standard library, not to the repository, and
  is a parameter of the model: the function that renders a report as JSON text.
\<close>

definition to_bytes :: "(DroneReport \<Rightarrow> string) \<Rightarrow> DroneReport \<Rightarrow> bytes" where
  "to_bytes json_dumps rpt = json_dumps rpt @ DELIM"

section \<open>The drone edge (src/drone_edge/drone.py)\<close>

definition FORWARD_BATCH :: nat where
  "FORWARD_BATCH = 5"

definition EFFECTIVE_BATTERY_TICK_INTERVAL :: real where
  "EFFECTIVE_BATTERY_TICK_INTERVAL = 1"

text \<open>\<^verbatim>\<open>THRESHOLDS = {"temp": (0, 40), "hum": (10, 90)}\<close> and \<^verbatim>\<open>is_anomaly\<close>.\<close>

definition is_anomaly :: "SensorReading \<Rightarrow> bool" where
  "is_anomaly reading =
     (let t_ok = (0 \<le> temperature reading \<and> temperature reading \<le> 40);
          h_ok = (10 \<le> humidity reading \<and> humidity reading \<le> 90)
      in \<not> (t_ok \<and> h_ok))"

text \<open>
  \<^verbatim>\<open>_send_report\<close> takes any list of objects and asks each one with
  \<^verbatim>\<open>hasattr\<close> for its attributes. An object is therefore modelled by the three
  attributes the function looks at, each present or absent; \<open>as_object\<close> is a
  \<^verbatim>\<open>SensorReading\<close> seen this way (a dataclass instance has all its fields).
\<close>

record pyobject =
  attr_sensor_id :: "string option"
  attr_temperature :: "real option"
  attr_humidity :: "real option"

definition as_object :: "SensorReading \<Rightarrow> pyobject" where
  "as_object r =
     \<lparr>attr_sensor_id = Some (sensor_id r), attr_temperature = Some (temperature r),
      attr_humidity = Some (humidity r)\<rparr>"

definition valid_reading :: "pyobject \<Rightarrow> bool" where
  "valid_reading r = (attr_temperature r \<noteq> None \<and> attr_humidity r \<noteq> None)"

text \<open>
  The unsent directory: file names with their contents. \<^verbatim>\<open>write_bytes\<close> creates
  the file or replaces the content of an existing one, \<^verbatim>\<open>unlink\<close> removes it, and
  \<^verbatim>\<open>glob("*.json")\<close> lists the files whose name ends in \<^verbatim>\<open>.json\<close>.
\<close>

type_synonym directory = "(string \<times> bytes) list"

definition write_bytes :: "string \<Rightarrow> bytes \<Rightarrow> directory \<Rightarrow> directory" where
  "write_bytes name content dir = AList.update name content dir"

definition unlink :: "string \<Rightarrow> directory \<Rightarrow> directory" where
  "unlink name dir = AList.delete name dir"

definition read_bytes :: "directory \<Rightarrow> string \<Rightarrow> bytes option" where
  "read_bytes dir name = map_of dir name"

definition endswith :: "string \<Rightarrow> string \<Rightarrow> bool" where
  "endswith name ext =
     (length ext \<le> length name \<and> drop (length name - length ext) name = ext)"

definition glob_json :: "directory \<Rightarrow> string list" where
  "glob_json dir = filter (\<lambda>name. endswith name ''.json'') (map fst dir)"

text \<open>
  What is put on \<^verbatim>\<open>gui_q\<close>: readings (by the sensor handler) and reports (by
  \<^verbatim>\<open>_send_report\<close>).
\<close>

datatype gui_item = GuiReading SensorReading | GuiReport DroneReport

text \<open>
  The state of a \<^verbatim>\<open>DroneEdge\<close>: the attributes its methods read and write
  (\<open>stop_set\<close> is the event \<^verbatim>\<open>_stop\<close>), and \<open>central_received\<close>, the frames
  the central server has been sent over a connection that succeeded.
\<close>

record DroneEdge =
  readings_q :: "SensorReading list"
  gui_q :: "gui_item list"
  battery :: Battery
  stop_set :: bool
  unsent_dir :: directory
  last_battery_tick_time :: real
  travel_ticks_remaining :: int
  charging_started_log_sent :: bool
  central_received :: "bytes list"

text \<open>
  \<^verbatim>\<open>DroneEdge.__init__\<close> at clock reading \<open>now\<close>; the directory
  \<^verbatim>\<open>unsent\<close> is created if missing and keeps the files it already has.
\<close>

definition DroneEdge_init :: "real \<Rightarrow> directory \<Rightarrow> DroneEdge" where
  "DroneEdge_init now existing =
     \<lparr>readings_q = [], gui_q = [],
      battery = Battery_init 100 DRAIN_RATE 10 20,
      stop_set = False, unsent_dir = existing, last_battery_tick_time = now,
      travel_ticks_remaining = 0, charging_started_log_sent = False,
      central_received = []\<rparr>"

definition stop :: "DroneEdge \<Rightarrow> DroneEdge" where
  "stop d = d\<lparr>stop_set := True\<rparr>"

text \<open>
  The outcome of \<^verbatim>\<open>socket.create_connection\<close> followed by \<^verbatim>\<open>sendall\<close>:
  the frame is delivered, an \<^verbatim>\<open>OSError\<close> is raised (the server is unreachable, the
  connection times out or is reset), or some other exception is raised.
\<close>

datatype conn_result = Delivered | OSError | OtherException

text \<open>
  What one call of \<^verbatim>\<open>_send_report\<close> reads from outside the program:
  \<^verbatim>\<open>datetime.utcnow().isoformat()\<close>, the outcome of the connection, and
  \<^verbatim>\<open>time.time()\<close> as the f-string of the file name renders it.
\<close>

record send_io =
  utcnow :: string
  connection :: conn_result
  time_time :: string

text \<open>
  \<^verbatim>\<open>_send_report(readings, anomalies_list)\<close> in two parts. \<open>build_report\<close> is
  the computation of the averages and the construction of the \<^verbatim>\<open>DroneReport\<close>
  (lines 269 to 281) from the readings that passed the \<^verbatim>\<open>hasattr\<close> filter;
  \<^const>\<open>the\<close> is applied only to attributes of such readings. The set comprehension
  that counts the sensors is the list of the present \<^verbatim>\<open>sensor_id\<close>s without
  duplicates.
\<close>

definition build_report ::
  "send_io \<Rightarrow> DroneEdge \<Rightarrow> pyobject list \<Rightarrow> anomaly_event list \<Rightarrow> DroneReport" where
  "build_report io d valid_readings anomalies_list =
     (let avg_t = sum_list (map (\<lambda>r. the (attr_temperature r)) valid_readings)
                    / real (length valid_readings);
          avg_h = sum_list (map (\<lambda>r. the (attr_humidity r)) valid_readings)
                    / real (length valid_readings)
      in \<lparr>drone_id = ''drone1'',
          report_timestamp = utcnow io,
          battery_level = level (battery d),
          status = (if returning (battery d) then ''returning'' else ''active''),
          avg_temperature = avg_t,
          avg_humidity = avg_h,
          sensor_count =
            int (length (remdups (List.map_filter attr_sensor_id valid_readings))),
          anomalies = anomalies_list\<rparr>)"

text \<open>
  The whole function: the two early returns, the report put on \<^verbatim>\<open>gui_q\<close>, and
  the \<^verbatim>\<open>try\<close> statement, whose three branches are the three outcomes of the
  connection. Each of them returns to the caller. Writing the file is taken to succeed.
\<close>

definition send_report ::
  "(DroneReport \<Rightarrow> string) \<Rightarrow> send_io \<Rightarrow> DroneEdge \<Rightarrow> pyobject list \<Rightarrow>
     anomaly_event list \<Rightarrow> DroneEdge" where
  "send_report json_dumps io d readings anomalies_list =
     (if readings = [] then d
      else
        let valid_readings = filter valid_reading readings in
        if valid_readings = [] then d
        else
          let rpt = build_report io d valid_readings anomalies_list;
              d1 = d\<lparr>gui_q := gui_q d @ [GuiReport rpt]\<rparr>
          in case connection io of
               Delivered \<Rightarrow>
                 d1\<lparr>central_received := central_received d1 @ [to_bytes json_dumps rpt]\<rparr>
             | OSError \<Rightarrow>
                 d1\<lparr>unsent_dir :=
                      write_bytes (time_time io @ ''.json'') (to_bytes json_dumps rpt)
                        (unsent_dir d1)\<rparr>
             | OtherException \<Rightarrow> d1)"

text \<open>
  One pass of the body of \<^verbatim>\<open>_retry_unsent_reports_loop\<close> after its sleep.
  \<open>conn\<close> gives, for each file, the outcome of the connection made for it in this
  pass. For one file: reading a file that has vanished raises
  \<^verbatim>\<open>FileNotFoundError\<close> and leaves everything as it is; after a delivery the file
  is unlinked; an \<^verbatim>\<open>OSError\<close> or any other exception is logged and the file is
  left. No statement of the \<^verbatim>\<open>try\<close> block parses the content (the call of
  \<^verbatim>\<open>json.loads\<close> is commented out), so the handler of
  \<^verbatim>\<open>json.JSONDecodeError\<close> is never entered and has no branch here.
\<close>

definition resend_one :: "(string \<Rightarrow> conn_result) \<Rightarrow> string \<Rightarrow> DroneEdge \<Rightarrow> DroneEdge" where
  "resend_one conn report_file d =
     (case read_bytes (unsent_dir d) report_file of
        None \<Rightarrow> d
      | Some report_bytes \<Rightarrow>
          (case conn report_file of
             Delivered \<Rightarrow>
               d\<lparr>central_received := central_received d @ [report_bytes],
                 unsent_dir := unlink report_file (unsent_dir d)\<rparr>
           | OSError \<Rightarrow> d
           | OtherException \<Rightarrow> d))"

text \<open>The \<^verbatim>\<open>for\<close> loop over the listed files, left when the stop event is set.\<close>

fun resend_all :: "(string \<Rightarrow> conn_result) \<Rightarrow> string list \<Rightarrow> DroneEdge \<Rightarrow> DroneEdge" where
  "resend_all conn [] d = d"
| "resend_all conn (report_file # rest) d =
     (if stop_set d then d else resend_all conn rest (resend_one conn report_file d))"

definition retry_unsent_reports :: "(string \<Rightarrow> conn_result) \<Rightarrow> DroneEdge \<Rightarrow> DroneEdge" where
  "retry_unsent_reports conn d =
     (if unsent_dir d = [] then d
      else resend_all conn (glob_json (unsent_dir d)) d)"

text \<open>
  \<^verbatim>\<open>manual_drain_battery(amount)\<close>.
\<close>

definition manual_drain_battery :: "DroneEdge \<Rightarrow> int \<Rightarrow> DroneEdge" where
  "manual_drain_battery d amount =
     (if amount \<le> 0 then d
      else
        let d1 = d\<lparr>battery := (battery d)\<lparr>level := max 0 (level (battery d) - amount)\<rparr>\<rparr>
        in if level (battery d1) < LOW_BATTERY_THRESHOLD (battery d1)
              \<and> \<not> returning (battery d1)
           then
             let d2 = d1\<lparr>battery := (battery d1)\<lparr>returning := True\<rparr>\<rparr>
             in if travel_ticks_remaining d2 = 0
                then d2\<lparr>travel_ticks_remaining := 2, charging_started_log_sent := False\<rparr>
                else d2
           else if level (battery d1) \<ge> CRITICAL_BATTERY_THRESHOLD \<and> returning (battery d1)
           then d1\<lparr>battery := (battery d1)\<lparr>returning := False\<rparr>,
                   travel_ticks_remaining := 0\<rparr>
           else d1)"

text \<open>
  \<^verbatim>\<open>set_low_battery_threshold(new_threshold)\<close> returns \<^verbatim>\<open>False\<close> for a
  threshold outside 5..80 and \<^verbatim>\<open>None\<close> otherwise; the model returns this value
  with the state. The last two branches of the source only log or pass.
\<close>

definition set_low_battery_threshold :: "DroneEdge \<Rightarrow> int \<Rightarrow> bool option \<times> DroneEdge" where
  "set_low_battery_threshold d new_threshold =
     (if \<not> (5 \<le> new_threshold \<and> new_threshold \<le> 80) then (Some False, d)
      else
        let current_level = level (battery d);
            currently_returning = returning (battery d)
        in if \<not> currently_returning \<and> current_level < new_threshold
           then
             let d1 = d\<lparr>battery := (battery d)\<lparr>returning := True\<rparr>\<rparr>
             in if travel_ticks_remaining d1 = 0
                then (None, d1\<lparr>travel_ticks_remaining := 2,
                                charging_started_log_sent := False\<rparr>)
                else (None, d1)
           else (None, d))"

subsection \<open>The forwarding loop\<close>

text \<open>
  The local variables of \<^verbatim>\<open>_forward_loop\<close> together with the drone:
  \<open>batch_anomalies\<close> is the local list \<^verbatim>\<open>anomalies\<close>.
\<close>

record forward_state =
  drone :: DroneEdge
  batch :: "SensorReading list"
  batch_anomalies :: "anomaly_event list"
  last_known_returning_status :: bool

definition forward_start :: "DroneEdge \<Rightarrow> forward_state" where
  "forward_start d =
     \<lparr>drone = d, batch = [], batch_anomalies = [],
      last_known_returning_status = returning (battery d)\<rparr>"

text \<open>
  What one iteration reads from outside: the clock at its start, and what each of the
  two calls of \<^verbatim>\<open>_send_report\<close> in the loop body would read.
\<close>

record iter_env =
  current_time :: real
  flush_io :: send_io
  batch_io :: send_io

text \<open>
  Lines 188 to 198: whether this tick charges, with the update of the travel countdown
  and of the log flag.
\<close>

definition should_charge_this_tick :: "DroneEdge \<Rightarrow> bool \<times> DroneEdge" where
  "should_charge_this_tick d =
     (if returning (battery d) then
        if travel_ticks_remaining d > 0
        then (False, d\<lparr>travel_ticks_remaining := travel_ticks_remaining d - 1\<rparr>)
        else (True, if \<not> charging_started_log_sent d
                    then d\<lparr>charging_started_log_sent := True\<rparr> else d)
      else (False, d))"

text \<open>
  The battery tick of an iteration; the first component says that the loop is left
  (\<^verbatim>\<open>break\<close>) because the battery is empty.
\<close>

definition battery_tick :: "real \<Rightarrow> DroneEdge \<Rightarrow> bool \<times> DroneEdge" where
  "battery_tick now d =
     (if now - last_battery_tick_time d \<ge> EFFECTIVE_BATTERY_TICK_INTERVAL then
        let (charging, d1) = should_charge_this_tick d;
            d2 = d1\<lparr>battery := tick (battery d1) charging, last_battery_tick_time := now\<rparr>
        in if level (battery d2) \<le> 0 \<and> \<not> stop_set d2 then (True, stop d2) else (False, d2)
      else (False, d))"

text \<open>The detection of a status change (lines 209 to 228).\<close>

definition status_change ::
  "(DroneReport \<Rightarrow> string) \<Rightarrow> send_io \<Rightarrow> forward_state \<Rightarrow> forward_state" where
  "status_change json_dumps io st =
     (let current_returning_status = returning (battery (drone st));
          st1 = (if last_known_returning_status st \<and> \<not> current_returning_status then
                   let d1 = (drone st)\<lparr>charging_started_log_sent := False\<rparr>
                   in if batch st \<noteq> []
                      then st\<lparr>drone := send_report json_dumps io d1
                                          (map as_object (batch st)) (batch_anomalies st),
                              batch := [], batch_anomalies := []\<rparr>
                      else st\<lparr>drone := d1\<rparr>
                 else st);
          st2 = (if \<not> last_known_returning_status st1 \<and> current_returning_status
                 then st1\<lparr>drone := (drone st1)\<lparr>travel_ticks_remaining := 2,
                                                charging_started_log_sent := False\<rparr>\<rparr>
                 else st1)
      in st2\<lparr>last_known_returning_status := current_returning_status\<rparr>)"

text \<open>
  Taking one reading from \<^verbatim>\<open>readings_q\<close> (lines 231 to 249); an empty queue is
  \<^verbatim>\<open>queue.Empty\<close>. The first component says that the iteration ends here
  (\<^verbatim>\<open>continue\<close>). \<open>anomaly_of\<close> is the dictionary
  \<^verbatim>\<open>anomaly_event\<close> of the source.
\<close>

definition anomaly_of :: "SensorReading \<Rightarrow> anomaly_event" where
  "anomaly_of reading =
     \<lparr>anomaly_sensor_id = sensor_id reading,
      val = [temperature reading, humidity reading],
      ts = timestamp reading\<rparr>"

definition queue_reading :: "forward_state \<Rightarrow> bool \<times> forward_state" where
  "queue_reading st =
     (case readings_q (drone st) of
        [] \<Rightarrow> (False, st)
      | reading # rest \<Rightarrow>
          let st1 = st\<lparr>drone := (drone st)\<lparr>readings_q := rest\<rparr>\<rparr>;
              st2 = (if is_anomaly reading
                     then st1\<lparr>batch_anomalies := batch_anomalies st1 @ [anomaly_of reading]\<rparr>
                     else st1)
          in if returning (battery (drone st2))
             then (True, st2\<lparr>batch := batch st2 @ [reading]\<rparr>)
             else (False, st2\<lparr>batch := batch st2 @ [reading]\<rparr>))"

text \<open>The flush of a full batch (lines 251 to 256).\<close>

definition flush_batch ::
  "(DroneReport \<Rightarrow> string) \<Rightarrow> send_io \<Rightarrow> forward_state \<Rightarrow> forward_state" where
  "flush_batch json_dumps io st =
     (if length (batch st) \<ge> FORWARD_BATCH \<and> \<not> returning (battery (drone st))
      then st\<lparr>drone := send_report json_dumps io (drone st)
                          (map as_object (batch st)) (batch_anomalies st),
              batch := [], batch_anomalies := []\<rparr>
      else st)"

text \<open>One iteration of the \<^verbatim>\<open>while\<close> loop.\<close>

definition forward_iteration ::
  "(DroneReport \<Rightarrow> string) \<Rightarrow> iter_env \<Rightarrow> forward_state \<Rightarrow> forward_state" where
  "forward_iteration json_dumps env st =
     (let (leave, d1) = battery_tick (current_time env) (drone st) in
      if leave then st\<lparr>drone := d1\<rparr>
      else
        let st1 = status_change json_dumps (flush_io env) (st\<lparr>drone := d1\<rparr>);
            (continue, st2) = queue_reading st1
        in if continue then st2 else flush_batch json_dumps (batch_io env) st2)"

text \<open>
  The loop runs while the stop event is not set, one iteration per element of the list of
  environments; \<open>forward_trace\<close> lists the states after each iteration.
\<close>

fun forward_loop ::
  "(DroneReport \<Rightarrow> string) \<Rightarrow> iter_env list \<Rightarrow> forward_state \<Rightarrow> forward_state" where
  "forward_loop json_dumps [] st = st"
| "forward_loop json_dumps (env # envs) st =
     (if stop_set (drone st) then st
      else forward_loop json_dumps envs (forward_iteration json_dumps env st))"

fun forward_trace ::
  "(DroneReport \<Rightarrow> string) \<Rightarrow> iter_env list \<Rightarrow> forward_state \<Rightarrow> forward_state list" where
  "forward_trace json_dumps [] st = []"
| "forward_trace json_dumps (env # envs) st =
     (if stop_set (drone st) then []
      else forward_iteration json_dumps env st
             # forward_trace json_dumps envs (forward_iteration json_dumps env st))"

subsection \<open>Sequences of battery operations\<close>

text \<open>
  The two operations that write the level: a tick of the battery, and a manual drain of
  the drone that owns it.
\<close>

datatype battery_op = Tick bool | ManualDrain int

fun apply_op :: "DroneEdge \<Rightarrow> battery_op \<Rightarrow> DroneEdge" where
  "apply_op d (Tick charging) = d\<lparr>battery := tick (battery d) charging\<rparr>"
| "apply_op d (ManualDrain amount) = manual_drain_battery d amount"

text \<open>The level is a percentage and neither rate is negative.\<close>

definition level_ok :: "DroneEdge \<Rightarrow> bool" where
  "level_ok d =
     (0 \<le> drain_rate (battery d) \<and> 0 \<le> recharge_rate (battery d) \<and>
      0 \<le> level (battery d) \<and> level (battery d) \<le> 100)"

subsection \<open>Reference notions and sample data\<close>

text \<open>
  The arithmetic mean as the specification words it: the sum of the values divided by
  their number.
\<close>

definition arithmetic_mean :: "real list \<Rightarrow> real" where
  "arithmetic_mean xs = sum_list xs / real (length xs)"

text \<open>
  A stand-in for \<^verbatim>\<open>json.dumps\<close> on reports, used where a theorem is evaluated on
  concrete data, and connection outcomes that do not depend on the file.
\<close>

definition sample_dumps :: "DroneReport \<Rightarrow> string" where
  "sample_dumps rpt = ''{drone_id: '' @ drone_id rpt @ '', status: '' @ status rpt @ ''}''"

definition collector_down :: "string \<Rightarrow> conn_result" where
  "collector_down report_file = OSError"

definition collector_up :: "string \<Rightarrow> conn_result" where
  "collector_up report_file = Delivered"

definition sample_io :: "conn_result \<Rightarrow> send_io" where
  "sample_io outcome =
     \<lparr>utcnow = ''2025-05-14T14:29:39'', connection = outcome, time_time = ''1747232979.5''\<rparr>"

text \<open>
  Four objects: two sensors with both values, one object of the first sensor without a
  humidity, and a second reading of the first sensor.
\<close>

definition sample_objects :: "pyobject list" where
  "sample_objects =
     [\<lparr>attr_sensor_id = Some ''s1'', attr_temperature = Some 20, attr_humidity = Some 40\<rparr>,
      \<lparr>attr_sensor_id = Some ''s2'', attr_temperature = Some 30, attr_humidity = Some 60\<rparr>,
      \<lparr>attr_sensor_id = Some ''s1'', attr_temperature = Some 1000, attr_humidity = None\<rparr>,
      \<lparr>attr_sensor_id = Some ''s1'', attr_temperature = Some 10, attr_humidity = Some 50\<rparr>]"

text \<open>
  A connection that succeeds for the file \<^verbatim>\<open>1.0.json\<close> only, and a directory with
  two stored reports and one other file.
\<close>

definition sample_conn :: "string \<Rightarrow> conn_result" where
  "sample_conn report_file = (if report_file = ''1.0.json'' then Delivered else OSError)"

definition sample_dir :: directory where
  "sample_dir = [(''1.0.json'', ''first''), (''notes.txt'', ''memo''), (''2.0.json'', ''second'')]"

text \<open>
  The environment of an iteration that starts at clock reading \<open>k\<close>, and the run of
  the specification's scenario: a new drone constructed at clock reading 0 and one
  iteration at each of the clock readings 1, 2, ..., so that every iteration ticks the
  battery. No reading arrives.
\<close>

definition env_at :: "real \<Rightarrow> iter_env" where
  "env_at t =
     \<lparr>current_time = t, flush_io = sample_io Delivered, batch_io = sample_io Delivered\<rparr>"

definition tick_env :: "nat \<Rightarrow> iter_env" where
  "tick_env k = env_at (real k)"

definition observe :: "forward_state \<Rightarrow> int \<times> bool \<times> int" where
  "observe st =
     (level (battery (drone st)), returning (battery (drone st)),
      travel_ticks_remaining (drone st))"

text \<open>
  Three readings, the second one out of range, and what is looked at after each
  iteration of a run that batches them: the flag \<^const>\<open>returning\<close>, the size of the
  batch and the number of items put on \<^verbatim>\<open>gui_q\<close>.
\<close>

definition sample_readings :: "SensorReading list" where
  "sample_readings =
     [\<lparr>sensor_id = ''s1'', temperature = 20, humidity = 40, timestamp = ''t1''\<rparr>,
      \<lparr>sensor_id = ''s2'', temperature = 45, humidity = 50, timestamp = ''t2''\<rparr>,
      \<lparr>sensor_id = ''s1'', temperature = 25, humidity = 60, timestamp = ''t3''\<rparr>]"

definition observe_batch :: "forward_state \<Rightarrow> bool \<times> nat \<times> nat" where
  "observe_batch st =
     (returning (battery (drone st)), length (batch st), length (gui_q (drone st)))"

text \<open>
  A drone whose battery is at level 22, with the three sample readings waiting in its
  queue, and the run of the mode-flush scenario: three iterations before the first tick
  is due, which batch the three readings, then eleven iterations that tick.
\<close>

definition low_drone :: DroneEdge where
  "low_drone =
     (DroneEdge_init 0 [])\<lparr>battery := Battery_init 22 3 10 20, readings_q := sample_readings\<rparr>"

definition mode_flush_envs :: "iter_env list" where
  "mode_flush_envs = map env_at [1/5, 2/5, 3/5] @ map tick_env [1..<12]"

text \<open>
  Two states of the loop in returning mode, both with an empty queue: one at level 50
  with a batch of six readings, one at level 85 with a batch of three readings and their
  one anomaly.
\<close>

definition charging_state :: forward_state where
  "charging_state =
     \<lparr>drone = (DroneEdge_init 0 [])\<lparr>battery := (Battery_init 50 3 10 20)\<lparr>returning := True\<rparr>\<rparr>,
      batch = sample_readings @ sample_readings,
      batch_anomalies = [anomaly_of (sample_readings ! 1), anomaly_of (sample_readings ! 1)],
      last_known_returning_status = True\<rparr>"

definition recharged_state :: forward_state where
  "recharged_state =
     \<lparr>drone = (DroneEdge_init 0 [])\<lparr>battery := (Battery_init 85 3 10 20)\<lparr>returning := True\<rparr>\<rparr>,
      batch = sample_readings,
      batch_anomalies = [anomaly_of (sample_readings ! 1)],
      last_known_returning_status = True\<rparr>"

text \<open>The travel countdown is 0, 1 or 2.\<close>

definition travel_ok :: "DroneEdge \<Rightarrow> bool" where
  "travel_ok d = (0 \<le> travel_ticks_remaining d \<and> travel_ticks_remaining d \<le> 2)"

section \<open>The message codec (src/common/messages.py, src/central_server/server.py)\<close>

text \<open>
  \<^verbatim>\<open>to_bytes\<close> hands \<^verbatim>\<open>asdict(self)\<close> to \<^verbatim>\<open>json.dumps\<close>, and the decoders
  hand the result of \<^verbatim>\<open>json.loads\<close> to the constructor of the dataclass, which
  checks no type. What travels is therefore a Python value as \<^verbatim>\<open>json\<close> knows it:
  a string, an integer, a float, a list or a dictionary with string keys. A float is a
  number or NaN (the infinities are left out). The NaN of a record is an object of its
  own, as \<^verbatim>\<open>float('nan')\<close> and the NaN of an arithmetic operation are; it is not
  the object that \<^verbatim>\<open>json.loads\<close> returns.
\<close>

datatype pyval =
    PyStr string
  | PyInt int
  | PyFloat real
  | PyNaN
  | PyList "pyval list"
  | PyDict "(string \<times> pyval) list"

text \<open>
  An instance of a dataclass is its fields with their values, in the order of
  declaration. \<^verbatim>\<open>asdict\<close> copies them into a dictionary (the values here hold no
  dataclass instances, so the copy has the values themselves).
\<close>

type_synonym dc_instance = "(string \<times> pyval) list"

definition asdict :: "dc_instance \<Rightarrow> pyval" where
  "asdict obj = PyDict obj"

text \<open>
  \<^verbatim>\<open>to_bytes\<close> of either dataclass:
  \<^verbatim>\<open>(json.dumps(asdict(self)) + DELIM).encode()\<close>. \<^verbatim>\<open>json.dumps\<close> is a parameter,
  as it is for \<^const>\<open>to_bytes\<close>; it escapes every character outside ASCII, so
  \<^verbatim>\<open>encode\<close> and \<^verbatim>\<open>decode\<close> leave its text as it is.
\<close>

definition instance_to_bytes :: "(pyval \<Rightarrow> string) \<Rightarrow> dc_instance \<Rightarrow> bytes" where
  "instance_to_bytes json_dumps obj = json_dumps (asdict obj) @ DELIM"

text \<open>
  The receivers (\<^verbatim>\<open>_sensor_handler\<close>, \<^verbatim>\<open>main\<close> of the central server) cut the
  first frame off the buffer: \<^verbatim>\<open>raw, buffer = buffer.split(DELIM.encode(), 1)\<close>,
  while the delimiter, a single newline, is in the buffer. A frame that is empty is
  skipped (\<^verbatim>\<open>if not raw: continue\<close>); any other frame is decoded.
\<close>

definition first_frame :: "bytes \<Rightarrow> (bytes \<times> bytes) option" where
  "first_frame buffer =
     (if CHR 0x0A \<in> set buffer
      then Some (takeWhile (\<lambda>c. c \<noteq> CHR 0x0A) buffer,
                 tl (dropWhile (\<lambda>c. c \<noteq> CHR 0x0A) buffer))
      else None)"

text \<open>
  The call \<^verbatim>\<open>Cls(**d)\<close> of a dataclass constructor: \<^verbatim>\<open>d\<close> must be a dictionary,
  each of its keys a field, and each field without a default among its keys; otherwise
  the call raises \<^verbatim>\<open>TypeError\<close>. The new instance has the fields in the order of
  declaration, those with a default last.
\<close>

datatype decode_error = JSONDecodeError | TypeError

definition new_instance ::
  "string list \<Rightarrow> (string \<times> pyval) list \<Rightarrow> pyval \<Rightarrow> decode_error + dc_instance" where
  "new_instance required defaults d =
     (case d of
        PyDict kw \<Rightarrow>
          if list_all (\<lambda>k. k \<in> set required \<union> set (map fst defaults)) (map fst kw)
             \<and> list_all (\<lambda>f. f \<in> set (map fst kw)) required
          then Inr (map (\<lambda>f. (f, the (map_of kw f))) required @
                    map (\<lambda>(f, dflt). (f, case map_of kw f of Some x \<Rightarrow> x | None \<Rightarrow> dflt))
                      defaults)
          else Inl TypeError
      | _ \<Rightarrow> Inl TypeError)"

text \<open>
  \<^verbatim>\<open>SensorReading.from_bytes(raw)\<close> is
  \<^verbatim>\<open>SensorReading(**json.loads(raw.decode()))\<close>; \<^verbatim>\<open>json.loads\<close> is a parameter
  that gives no value where it raises \<^verbatim>\<open>JSONDecodeError\<close>. The field
  \<^verbatim>\<open>timestamp\<close> has a default, the clock reading \<open>now\<close> as text.
\<close>

definition from_bytes ::
  "(string \<Rightarrow> pyval option) \<Rightarrow> string \<Rightarrow> bytes \<Rightarrow> decode_error + dc_instance" where
  "from_bytes json_loads now raw =
     (case json_loads raw of
        None \<Rightarrow> Inl JSONDecodeError
      | Some d \<Rightarrow>
          new_instance [''sensor_id'', ''temperature'', ''humidity'']
            [(''timestamp'', PyStr now)] d)"

text \<open>
  The central server decodes a report in place:
  \<^verbatim>\<open>DroneReport(**json.loads(raw.decode()))\<close>. No field of a report has a default.
\<close>

definition decode_report :: "(string \<Rightarrow> pyval option) \<Rightarrow> bytes \<Rightarrow> decode_error + dc_instance" where
  "decode_report json_loads raw =
     (case json_loads raw of
        None \<Rightarrow> Inl JSONDecodeError
      | Some d \<Rightarrow>
          new_instance
            [''drone_id'', ''timestamp'', ''battery_level'', ''status'', ''avg_temperature'',
             ''avg_humidity'', ''sensor_count'', ''anomalies''] [] d)"

text \<open>
  Python's \<^verbatim>\<open>==\<close> between two values that share no object, as the values of a
  decoded record and of the original are (\<^verbatim>\<open>json.loads\<close> builds its result anew):
  strings and numbers compare by value, NaN is unequal to everything, itself included,
  lists compare element by element, and two dictionaries are equal when they have the
  same number of keys and each key of the first has an equal value in the second. The
  comparison of an object with itself, which the containers of Python cut short, is not
  part of the model.
\<close>

fun py_equal :: "pyval \<Rightarrow> pyval \<Rightarrow> bool"
  and py_equal_list :: "pyval list \<Rightarrow> pyval list \<Rightarrow> bool"
  and py_dict_within :: "(string \<times> pyval) list \<Rightarrow> (string \<times> pyval) list \<Rightarrow> bool" where
  "py_equal (PyStr a) y = (case y of PyStr b \<Rightarrow> a = b | _ \<Rightarrow> False)"
| "py_equal (PyInt a) y =
     (case y of PyInt b \<Rightarrow> a = b | PyFloat b \<Rightarrow> real_of_int a = b | _ \<Rightarrow> False)"
| "py_equal (PyFloat a) y =
     (case y of PyInt b \<Rightarrow> a = real_of_int b | PyFloat b \<Rightarrow> a = b | _ \<Rightarrow> False)"
| "py_equal PyNaN y = False"
| "py_equal (PyList xs) y = (case y of PyList ys \<Rightarrow> py_equal_list xs ys | _ \<Rightarrow> False)"
| "py_equal (PyDict kvs) y =
     (case y of
        PyDict kvs' \<Rightarrow> length kvs = length kvs' \<and> py_dict_within kvs kvs'
      | _ \<Rightarrow> False)"
| "py_equal_list [] ys = (ys = [])"
| "py_equal_list (x # xs) ys =
     (case ys of [] \<Rightarrow> False | y # ys' \<Rightarrow> py_equal x y \<and> py_equal_list xs ys')"
| "py_dict_within [] kvs' = True"
| "py_dict_within ((k, x) # kvs) kvs' =
     ((case map_of kvs' k of None \<Rightarrow> False | Some y \<Rightarrow> py_equal x y)
      \<and> py_dict_within kvs kvs')"

text \<open>
  The \<^verbatim>\<open>__eq__\<close> that \<^verbatim>\<open>@dataclass\<close> generates compares the tuples of the field
  values of two instances of the same class.
\<close>

definition instance_eq :: "dc_instance \<Rightarrow> dc_instance \<Rightarrow> bool" where
  "instance_eq a b = py_equal_list (map snd a) (map snd b)"

text \<open>
  \<^verbatim>\<open>decode(encode(r)) == r\<close>: the decoder returns an instance, and it is equal to
  \<^verbatim>\<open>r\<close>.
\<close>

definition decoded_equals :: "decode_error + dc_instance \<Rightarrow> dc_instance \<Rightarrow> bool" where
  "decoded_equals result obj =
     (case result of Inl e \<Rightarrow> False | Inr obj' \<Rightarrow> instance_eq obj' obj)"

text \<open>
  A value without NaN, and a value all of whose dictionaries have distinct keys (every
  Python dictionary has).
\<close>

fun nan_free :: "pyval \<Rightarrow> bool" where
  "nan_free PyNaN = False"
| "nan_free (PyList xs) = (\<forall>x \<in> set xs. nan_free x)"
| "nan_free (PyDict kvs) = (\<forall>kv \<in> set kvs. nan_free (snd kv))"
| "nan_free v = True"

fun keys_distinct :: "pyval \<Rightarrow> bool" where
  "keys_distinct (PyList xs) = (\<forall>x \<in> set xs. keys_distinct x)"
| "keys_distinct (PyDict kvs) =
     (distinct (map fst kvs) \<and> (\<forall>kv \<in> set kvs. keys_distinct (snd kv)))"
| "keys_distinct v = True"

text \<open>
  The instances of the two dataclasses whose fields have the declared types and whose
  floats are numbers: a \<^verbatim>\<open>SensorReading\<close>, and a \<^verbatim>\<open>DroneReport\<close> with its
  list of anomaly dictionaries.
\<close>

definition reading_instance :: "SensorReading \<Rightarrow> dc_instance" where
  "reading_instance r =
     [(''sensor_id'', PyStr (sensor_id r)),
      (''temperature'', PyFloat (temperature r)),
      (''humidity'', PyFloat (humidity r)),
      (''timestamp'', PyStr (timestamp r))]"

definition anomaly_dict :: "anomaly_event \<Rightarrow> pyval" where
  "anomaly_dict a =
     PyDict [(''sensor_id'', PyStr (anomaly_sensor_id a)),
             (''val'', PyList (map PyFloat (val a))),
             (''ts'', PyStr (ts a))]"

definition report_instance :: "DroneReport \<Rightarrow> dc_instance" where
  "report_instance p =
     [(''drone_id'', PyStr (drone_id p)),
      (''timestamp'', PyStr (report_timestamp p)),
      (''battery_level'', PyInt (battery_level p)),
      (''status'', PyStr (status p)),
      (''avg_temperature'', PyFloat (avg_temperature p)),
      (''avg_humidity'', PyFloat (avg_humidity p)),
      (''sensor_count'', PyInt (sensor_count p)),
      (''anomalies'', PyList (map anomaly_dict (anomalies p)))]"

text \<open>
  What the documentation of the \<^verbatim>\<open>json\<close> module says of the two library functions,
  for one dictionary \<open>d\<close> with string keys: \<^verbatim>\<open>json.loads\<close> of the text
  \<^verbatim>\<open>json.dumps(d)\<close> is a dictionary with the same keys and values (strings,
  integers, floats, lists and dictionaries come back as themselves, and NaN is written
  \<^verbatim>\<open>NaN\<close> and read back as NaN); the text is not empty, and it is one line (there
  is no indentation, and control characters inside strings are escaped).
\<close>

definition json_round_trip ::
  "(pyval \<Rightarrow> string) \<Rightarrow> (string \<Rightarrow> pyval option) \<Rightarrow> pyval \<Rightarrow> bool" where
  "json_round_trip json_dumps json_loads d =
     (json_loads (json_dumps d) = Some d \<and> json_dumps d \<noteq> []
      \<and> CHR 0x0A \<notin> set (json_dumps d))"

text \<open>The field names of the two dataclasses, in the order of declaration.\<close>

definition reading_fields :: "string list" where
  "reading_fields = [''sensor_id'', ''temperature'', ''humidity'', ''timestamp'']"

definition report_fields :: "string list" where
  "report_fields =
     [''drone_id'', ''timestamp'', ''battery_level'', ''status'', ''avg_temperature'',
      ''avg_humidity'', ''sensor_count'', ''anomalies'']"

subsection \<open>Sample data for the codec\<close>

text \<open>
  A report, a reading whose temperature is NaN
  (\<^verbatim>\<open>SensorReading('s1', float('nan'), 40.0, 't1')\<close>), and a stand-in for the two
  library functions that knows three dictionaries (the first sample reading, the report
  and the NaN reading) with the text that \<^verbatim>\<open>json.dumps\<close> writes for each.
\<close>

definition sample_report :: DroneReport where
  "sample_report =
     \<lparr>drone_id = ''drone1'', report_timestamp = ''2025-05-14T14:29:39'',
      battery_level = 93, status = ''active'', avg_temperature = 30, avg_humidity = 50,
      sensor_count = 2,
      anomalies = [\<lparr>anomaly_sensor_id = ''s2'', val = [45, 50], ts = ''t2''\<rparr>]\<rparr>"

definition nan_reading :: dc_instance where
  "nan_reading =
     [(''sensor_id'', PyStr ''s1''), (''temperature'', PyNaN),
      (''humidity'', PyFloat 40), (''timestamp'', PyStr ''t1'')]"

definition sample_table :: "(pyval \<times> string) list" where
  "sample_table =
     [(asdict (reading_instance (sample_readings ! 0)),
       ''{\"sensor_id\": \"s1\", \"temperature\": 20.0, \"humidity\": 40.0, \"timestamp\": \"t1\"}''),
      (asdict (report_instance sample_report),
       ''{\"drone_id\": \"drone1\", \"timestamp\": \"2025-05-14T14:29:39\", \"battery_level\": 93, \"status\": \"active\", \"avg_temperature\": 30.0, \"avg_humidity\": 50.0, \"sensor_count\": 2, \"anomalies\": [{\"sensor_id\": \"s2\", \"val\": [45.0, 50.0], \"ts\": \"t2\"}]}''),
      (asdict nan_reading,
       ''{\"sensor_id\": \"s1\", \"temperature\": NaN, \"humidity\": 40.0, \"timestamp\": \"t1\"}'')]"

definition table_dumps :: "pyval \<Rightarrow> string" where
  "table_dumps d = (case map_of sample_table d of Some line \<Rightarrow> line | None \<Rightarrow> ''null'')"

definition table_loads :: "string \<Rightarrow> pyval option" where
  "table_loads line = map_of (map (\<lambda>(d, l). (l, d)) sample_table) line"

section \<open>Properties of the battery\<close>

lemma tick_level:
  "level (tick b c) =
     (if c then min 100 (level b + recharge_rate b) else max 0 (level b - drain_rate b))"
  by (simp add: tick_def Let_def)

lemma tick_fields [simp]:
  "drain_rate (tick b c) = drain_rate b"
  "recharge_rate (tick b c) = recharge_rate b"
  "LOW_BATTERY_THRESHOLD (tick b c) = LOW_BATTERY_THRESHOLD b"
  by (simp_all add: tick_def Let_def)

lemma tick_returning:
  "returning (tick b c) =
     (if returning b then level (tick b c) < CRITICAL_BATTERY_THRESHOLD
      else level (tick b c) < LOW_BATTERY_THRESHOLD b)"
  by (auto simp add: tick_def Let_def)

lemma length_tick_trace [simp]: "length (tick_trace b cs) = length cs"
  by (induction cs arbitrary: b) simp_all

lemma tick_trace_step:
  "i < length cs \<Longrightarrow>
     tick_trace b cs ! i = tick ((b # tick_trace b cs) ! i) (cs ! i)"
proof (induction cs arbitrary: b i)
  case Nil
  then show ?case by simp
next
  case (Cons c cs)
  show ?case
  proof (cases i)
    case 0
    then show ?thesis by simp
  next
    case (Suc j)
    with Cons.prems have "j < length cs" by simp
    from Cons.IH [OF this, of "tick b c"] Suc show ?thesis by simp
  qed
qed

lemma trace_rise:
  assumes i: "i < length cs"
    and r: "\<not> returning ((b # tick_trace b cs) ! i)" "returning (tick_trace b cs ! i)"
  shows "level (tick_trace b cs ! i) < LOW_BATTERY_THRESHOLD (tick_trace b cs ! i)"
proof -
  let ?p = "(b # tick_trace b cs) ! i"
  have q: "tick_trace b cs ! i = tick ?p (cs ! i)"
    using i by (rule tick_trace_step)
  from r(2) have "returning (tick ?p (cs ! i))" unfolding q .
  with r(1) have "level (tick ?p (cs ! i)) < LOW_BATTERY_THRESHOLD ?p"
    by (simp add: tick_returning)
  then show ?thesis unfolding q by simp
qed

lemma trace_fall:
  assumes i: "i < length cs"
    and r: "returning ((b # tick_trace b cs) ! i)" "\<not> returning (tick_trace b cs ! i)"
  shows "level (tick_trace b cs ! i) \<ge> CRITICAL_BATTERY_THRESHOLD"
proof -
  let ?p = "(b # tick_trace b cs) ! i"
  have q: "tick_trace b cs ! i = tick ?p (cs ! i)"
    using i by (rule tick_trace_step)
  from r(2) have "\<not> returning (tick ?p (cs ! i))" unfolding q .
  with r(1) have "\<not> level (tick ?p (cs ! i)) < CRITICAL_BATTERY_THRESHOLD"
    by (simp add: tick_returning)
  then show ?thesis unfolding q by simp
qed

text \<open>
  C2 (hysteresis). Along every sequence of ticks of a battery whose low threshold is
  below the critical threshold, \<^const>\<open>returning\<close> goes from false to true only at a
  tick that leaves the level below the low threshold, and from true to false only at a
  tick that leaves the level at or above the critical threshold; a returning battery
  stays returning after a tick exactly when the level is still below 90. In the run of
  the specification (low threshold 20, critical threshold 90, drain 3, recharge 10) the
  battery at level 25 drains to 22 and then 19, where \<^const>\<open>returning\<close> is set; it
  stays set while charging takes the level through 29, 39, ..., 89 and is cleared at 99.
\<close>

theorem C2_hysteresis:
  "(LOW_BATTERY_THRESHOLD b < CRITICAL_BATTERY_THRESHOLD \<longrightarrow>
      (\<forall>i < length cs.
         (\<not> returning ((b # tick_trace b cs) ! i) \<and> returning (tick_trace b cs ! i)
            \<longrightarrow> level (tick_trace b cs ! i) < LOW_BATTERY_THRESHOLD (tick_trace b cs ! i)) \<and>
         (returning ((b # tick_trace b cs) ! i) \<and> \<not> returning (tick_trace b cs ! i)
            \<longrightarrow> level (tick_trace b cs ! i) \<ge> CRITICAL_BATTERY_THRESHOLD))) \<and>
   (returning b \<longrightarrow>
      returning (tick b c) = (level (tick b c) < CRITICAL_BATTERY_THRESHOLD)) \<and>
   CRITICAL_BATTERY_THRESHOLD = 90 \<and>
   map (\<lambda>s. (level s, returning s))
       (tick_trace (Battery_init 25 3 10 20)
          [False, False, True, True, True, True, True, True, True, True]) =
     [(22, False), (19, True), (29, True), (39, True), (49, True), (59, True),
      (69, True), (79, True), (89, True), (99, False)]"
proof (intro conjI impI allI)
  fix i
  assume "i < length cs"
    and "\<not> returning ((b # tick_trace b cs) ! i) \<and> returning (tick_trace b cs ! i)"
  then show "level (tick_trace b cs ! i) < LOW_BATTERY_THRESHOLD (tick_trace b cs ! i)"
    using trace_rise by blast
next
  fix i
  assume "i < length cs"
    and "returning ((b # tick_trace b cs) ! i) \<and> \<not> returning (tick_trace b cs ! i)"
  then show "level (tick_trace b cs ! i) \<ge> CRITICAL_BATTERY_THRESHOLD"
    using trace_fall by blast
next
  assume "returning b"
  then show "returning (tick b c) = (level (tick b c) < CRITICAL_BATTERY_THRESHOLD)"
    by (simp add: tick_returning)
next
  show "CRITICAL_BATTERY_THRESHOLD = 90"
    by (simp add: CRITICAL_BATTERY_THRESHOLD_def)
next
  show "map (\<lambda>s. (level s, returning s))
       (tick_trace (Battery_init 25 3 10 20)
          [False, False, True, True, True, True, True, True, True, True]) =
     [(22, False), (19, True), (29, True), (39, True), (49, True), (59, True),
      (69, True), (79, True), (89, True), (99, False)]"
    by (simp add: Battery_init_def tick_def Let_def CRITICAL_BATTERY_THRESHOLD_def)
qed

theorem C2_hysteresis_witness:
  "LOW_BATTERY_THRESHOLD (Battery_init 25 3 10 20) < CRITICAL_BATTERY_THRESHOLD \<and>
   (1::nat) < length [False, False] \<and>
   \<not> returning ((Battery_init 25 3 10 20 # tick_trace (Battery_init 25 3 10 20) [False, False]) ! 1) \<and>
   returning (tick_trace (Battery_init 25 3 10 20) [False, False] ! 1) \<and>
   level (tick_trace (Battery_init 25 3 10 20) [False, False] ! 1)
     < LOW_BATTERY_THRESHOLD (tick_trace (Battery_init 25 3 10 20) [False, False] ! 1) \<and>
   LOW_BATTERY_THRESHOLD ((Battery_init 85 3 10 20)\<lparr>returning := True\<rparr>)
     < CRITICAL_BATTERY_THRESHOLD \<and>
   (0::nat) < length [True] \<and>
   returning (((Battery_init 85 3 10 20)\<lparr>returning := True\<rparr> #
      tick_trace ((Battery_init 85 3 10 20)\<lparr>returning := True\<rparr>) [True]) ! 0) \<and>
   \<not> returning (tick_trace ((Battery_init 85 3 10 20)\<lparr>returning := True\<rparr>) [True] ! 0) \<and>
   level (tick_trace ((Battery_init 85 3 10 20)\<lparr>returning := True\<rparr>) [True] ! 0)
     \<ge> CRITICAL_BATTERY_THRESHOLD \<and>
   returning ((Battery_init 85 3 10 20)\<lparr>returning := True\<rparr>) \<and>
   returning (tick ((Battery_init 85 3 10 20)\<lparr>returning := True\<rparr>) False) =
     (level (tick ((Battery_init 85 3 10 20)\<lparr>returning := True\<rparr>) False)
        < CRITICAL_BATTERY_THRESHOLD)"
proof -
  let ?b = "Battery_init 25 3 10 20"
  let ?e = "(Battery_init 85 3 10 20)\<lparr>returning := True\<rparr>"
  have pre: "LOW_BATTERY_THRESHOLD ?b < CRITICAL_BATTERY_THRESHOLD \<and>
     (1::nat) < length [False, False] \<and>
     \<not> returning ((?b # tick_trace ?b [False, False]) ! 1) \<and>
     returning (tick_trace ?b [False, False] ! 1)"
    by (simp add: Battery_init_def tick_def Let_def CRITICAL_BATTERY_THRESHOLD_def)
  with C2_hysteresis [of ?b "[False, False]"]
  have r1: "level (tick_trace ?b [False, False] ! 1)
          < LOW_BATTERY_THRESHOLD (tick_trace ?b [False, False] ! 1)"
    by blast
  have pre2: "LOW_BATTERY_THRESHOLD ?e < CRITICAL_BATTERY_THRESHOLD \<and>
     (0::nat) < length [True] \<and>
     returning ((?e # tick_trace ?e [True]) ! 0) \<and>
     \<not> returning (tick_trace ?e [True] ! 0) \<and> returning ?e"
    by (simp add: Battery_init_def tick_def Let_def CRITICAL_BATTERY_THRESHOLD_def)
  with C2_hysteresis [of ?e "[True]" False]
  have r2: "level (tick_trace ?e [True] ! 0) \<ge> CRITICAL_BATTERY_THRESHOLD"
    and r3: "returning (tick ?e False) = (level (tick ?e False) < CRITICAL_BATTERY_THRESHOLD)"
    by blast+
  from pre r1 pre2 r2 r3 show ?thesis by blast
qed

section \<open>Properties of the operator commands\<close>

lemma set_low_battery_threshold_keeps_threshold:
  "LOW_BATTERY_THRESHOLD (battery (snd (set_low_battery_threshold d n))) =
     LOW_BATTERY_THRESHOLD (battery d)"
  by (simp add: set_low_battery_threshold_def Let_def)

lemma set_low_battery_threshold_rejects:
  "\<not> (5 \<le> n \<and> n \<le> 80) \<Longrightarrow> set_low_battery_threshold d n = (Some False, d)"
  by (simp add: set_low_battery_threshold_def)

lemma set_low_battery_threshold_returning:
  "5 \<le> n \<Longrightarrow> n \<le> 80 \<Longrightarrow>
     returning (battery (snd (set_low_battery_threshold d n))) =
       (returning (battery d) \<or> level (battery d) < n)"
  by (auto simp add: set_low_battery_threshold_def Let_def)

text \<open>
  C1 (the code at the failing input). A new drone has level 100 and low threshold 20.
  \<^verbatim>\<open>set_low_battery_threshold(30)\<close> accepts the value (it returns
  \<^verbatim>\<open>None\<close>, not \<^verbatim>\<open>False\<close>) and leaves the drone as it was: the low
  threshold of the battery is still 20. No branch of the function assigns
  \<^verbatim>\<open>LOW_BATTERY_THRESHOLD\<close>.
\<close>

theorem C1_threshold_not_updated:
  "fst (set_low_battery_threshold (DroneEdge_init 0 []) 30) = None \<and>
   LOW_BATTERY_THRESHOLD (battery (snd (set_low_battery_threshold (DroneEdge_init 0 []) 30))) = 20 \<and>
   snd (set_low_battery_threshold (DroneEdge_init 0 []) 30) = DroneEdge_init 0 []"
  by (simp add: set_low_battery_threshold_def Let_def DroneEdge_init_def Battery_init_def)

lemma manual_drain_level:
  "0 < amount \<Longrightarrow>
     level (battery (manual_drain_battery d amount)) = max 0 (level (battery d) - amount)"
  by (simp add: manual_drain_battery_def Let_def)

lemma manual_drain_rates [simp]:
  "drain_rate (battery (manual_drain_battery d amount)) = drain_rate (battery d)"
  "recharge_rate (battery (manual_drain_battery d amount)) = recharge_rate (battery d)"
  "LOW_BATTERY_THRESHOLD (battery (manual_drain_battery d amount)) =
     LOW_BATTERY_THRESHOLD (battery d)"
  by (simp_all add: manual_drain_battery_def Let_def)

lemma manual_drain_nonpositive: "amount \<le> 0 \<Longrightarrow> manual_drain_battery d amount = d"
  by (simp add: manual_drain_battery_def)

lemma apply_op_level_ok: "level_ok d \<Longrightarrow> level_ok (apply_op d x)"
proof (cases x)
  case (Tick c)
  assume "level_ok d"
  then show ?thesis using Tick by (auto simp add: level_ok_def tick_level)
next
  case (ManualDrain n)
  assume ok: "level_ok d"
  show ?thesis
  proof (cases "0 < n")
    case True
    with ok ManualDrain show ?thesis by (auto simp add: level_ok_def manual_drain_level)
  next
    case False
    with ok ManualDrain show ?thesis by (simp add: manual_drain_nonpositive)
  qed
qed

lemma foldl_apply_op_level_ok: "level_ok d \<Longrightarrow> level_ok (foldl apply_op d xs)"
  by (induction xs arbitrary: d) (simp_all add: apply_op_level_ok)

lemma manual_drain_returning:
  "0 < amount \<Longrightarrow>
     returning (battery (manual_drain_battery d amount)) =
       (if returning (battery d)
        then max 0 (level (battery d) - amount) < CRITICAL_BATTERY_THRESHOLD
        else max 0 (level (battery d) - amount) < LOW_BATTERY_THRESHOLD (battery d))"
  by (auto simp add: manual_drain_battery_def Let_def)

lemma manual_drain_travel:
  "0 < amount \<Longrightarrow>
     travel_ticks_remaining (manual_drain_battery d amount) =
       (if \<not> returning (battery d)
           \<and> max 0 (level (battery d) - amount) < LOW_BATTERY_THRESHOLD (battery d)
        then (if travel_ticks_remaining d = 0 then 2 else travel_ticks_remaining d)
        else if returning (battery d)
           \<and> max 0 (level (battery d) - amount) \<ge> CRITICAL_BATTERY_THRESHOLD
        then 0
        else travel_ticks_remaining d)"
  by (auto simp add: manual_drain_battery_def Let_def)

text \<open>
  C9 (as amended). A manual drain by a positive amount lowers the level by the amount,
  not below 0, and re-evaluates \<^const>\<open>returning\<close> against the unchanged low
  threshold: when the new level is below the low threshold and the drone was not
  returning, it is returning afterwards and the travel countdown is 2 unless a countdown
  was in progress; when the new level is at least the critical threshold and the drone
  was returning, \<^const>\<open>returning\<close> is cleared and the countdown is 0; in every other
  case both are as before. A manual drain by an amount of 0 or less changes nothing.
\<close>

theorem C9_manual_drain:
  "(0 < amount \<longrightarrow>
      level (battery (manual_drain_battery d amount)) = max 0 (level (battery d) - amount) \<and>
      LOW_BATTERY_THRESHOLD (battery (manual_drain_battery d amount)) =
        LOW_BATTERY_THRESHOLD (battery d) \<and>
      (level (battery (manual_drain_battery d amount)) < LOW_BATTERY_THRESHOLD (battery d)
         \<and> \<not> returning (battery d) \<longrightarrow>
           returning (battery (manual_drain_battery d amount)) \<and>
           travel_ticks_remaining (manual_drain_battery d amount) =
             (if travel_ticks_remaining d = 0 then 2 else travel_ticks_remaining d)) \<and>
      (level (battery (manual_drain_battery d amount)) \<ge> CRITICAL_BATTERY_THRESHOLD
         \<and> returning (battery d) \<longrightarrow>
           \<not> returning (battery (manual_drain_battery d amount)) \<and>
           travel_ticks_remaining (manual_drain_battery d amount) = 0) \<and>
      (\<not> (level (battery (manual_drain_battery d amount)) < LOW_BATTERY_THRESHOLD (battery d)
            \<and> \<not> returning (battery d)) \<and>
       \<not> (level (battery (manual_drain_battery d amount)) \<ge> CRITICAL_BATTERY_THRESHOLD
            \<and> returning (battery d)) \<longrightarrow>
           returning (battery (manual_drain_battery d amount)) = returning (battery d) \<and>
           travel_ticks_remaining (manual_drain_battery d amount) = travel_ticks_remaining d)) \<and>
   (amount \<le> 0 \<longrightarrow> manual_drain_battery d amount = d)"
proof (intro conjI impI)
  assume "amount \<le> 0"
  then show "manual_drain_battery d amount = d" by (rule manual_drain_nonpositive)
qed (auto simp add: manual_drain_level manual_drain_returning manual_drain_travel)

text \<open>
  C9 as stated fails for an amount that is not positive: at level 100 a drain by \<open>-5\<close>
  would give \<open>max 0 (100 - (-5)) = 105\<close>, and the guard at the head of the function
  leaves the level at 100.
\<close>

theorem C9_counterexample:
  "level (battery (manual_drain_battery (DroneEdge_init 0 []) (- 5))) \<noteq>
     max 0 (level (battery (DroneEdge_init 0 [])) - (- 5))"
  by (simp add: manual_drain_battery_def DroneEdge_init_def Battery_init_def)

text \<open>
  C9 at concrete inputs: a drain by 10 at level 25 starts the return; a drain by 5 of a
  returning drone at level 100 clears it; a drain by \<open>-5\<close> does nothing.
\<close>

theorem C9_manual_drain_witness:
  "(0::int) < 10 \<and>
   level (battery (manual_drain_battery
      ((DroneEdge_init 0 [])\<lparr>battery := Battery_init 25 3 10 20\<rparr>) 10))
     < LOW_BATTERY_THRESHOLD (battery ((DroneEdge_init 0 [])\<lparr>battery := Battery_init 25 3 10 20\<rparr>)) \<and>
   \<not> returning (battery ((DroneEdge_init 0 [])\<lparr>battery := Battery_init 25 3 10 20\<rparr>)) \<and>
   returning (battery (manual_drain_battery
      ((DroneEdge_init 0 [])\<lparr>battery := Battery_init 25 3 10 20\<rparr>) 10)) \<and>
   travel_ticks_remaining (manual_drain_battery
      ((DroneEdge_init 0 [])\<lparr>battery := Battery_init 25 3 10 20\<rparr>) 10) = 2 \<and>
   (0::int) < 5 \<and>
   level (battery (manual_drain_battery
      ((DroneEdge_init 0 [])\<lparr>battery := (Battery_init 100 3 10 20)\<lparr>returning := True\<rparr>\<rparr>) 5))
     \<ge> CRITICAL_BATTERY_THRESHOLD \<and>
   returning (battery
      ((DroneEdge_init 0 [])\<lparr>battery := (Battery_init 100 3 10 20)\<lparr>returning := True\<rparr>\<rparr>)) \<and>
   \<not> returning (battery (manual_drain_battery
      ((DroneEdge_init 0 [])\<lparr>battery := (Battery_init 100 3 10 20)\<lparr>returning := True\<rparr>\<rparr>) 5)) \<and>
   (- 5::int) \<le> 0 \<and>
   manual_drain_battery (DroneEdge_init 0 []) (- 5) = DroneEdge_init 0 []"
proof -
  let ?d = "(DroneEdge_init 0 [])\<lparr>battery := Battery_init 25 3 10 20\<rparr>"
  let ?e = "(DroneEdge_init 0 [])\<lparr>battery := (Battery_init 100 3 10 20)\<lparr>returning := True\<rparr>\<rparr>"
  have pre1: "(0::int) < 10 \<and>
      level (battery (manual_drain_battery ?d 10)) < LOW_BATTERY_THRESHOLD (battery ?d) \<and>
      \<not> returning (battery ?d) \<and> travel_ticks_remaining ?d = 0"
    by (simp add: manual_drain_battery_def DroneEdge_init_def Battery_init_def Let_def)
  have pre2: "(0::int) < 5 \<and>
      level (battery (manual_drain_battery ?e 5)) \<ge> CRITICAL_BATTERY_THRESHOLD \<and>
      returning (battery ?e)"
    by (simp add: manual_drain_battery_def DroneEdge_init_def Battery_init_def Let_def
        CRITICAL_BATTERY_THRESHOLD_def)
  have pre3: "(- 5::int) \<le> 0" by simp
  from pre1 C9_manual_drain [of 10 ?d]
  have r1: "returning (battery (manual_drain_battery ?d 10)) \<and>
      travel_ticks_remaining (manual_drain_battery ?d 10) = 2"
    by simp
  from pre2 C9_manual_drain [of 5 ?e]
  have r2: "\<not> returning (battery (manual_drain_battery ?e 5))"
    by blast
  from pre3 C9_manual_drain [of "- 5" "DroneEdge_init 0 []"]
  have r3: "manual_drain_battery (DroneEdge_init 0 []) (- 5) = DroneEdge_init 0 []"
    by blast
  from pre1 pre2 pre3 r1 r2 r3 show ?thesis by blast
qed

text \<open>
  C10 (as amended). For a battery whose drain and recharge rates are not negative and
  whose level starts in 0..100, the level is in 0..100 after every sequence of ticks
  (charging or not) and manual drains. A charging tick never leaves the level above 100
  and a draining tick never leaves it below 0; the other bound of each needs the sign of
  the rate. A manual drain by a positive amount lowers the level by the amount, not below
  0, and does not raise a level that was not negative; a manual drain by an amount of 0
  or less changes nothing.
\<close>

theorem C10_level_range:
  "(0 \<le> drain_rate (battery d) \<and> 0 \<le> recharge_rate (battery d) \<and>
    0 \<le> level (battery d) \<and> level (battery d) \<le> 100 \<longrightarrow>
      0 \<le> level (battery (foldl apply_op d ops)) \<and>
      level (battery (foldl apply_op d ops)) \<le> 100) \<and>
   level (tick b True) \<le> 100 \<and>
   0 \<le> level (tick b False) \<and>
   (0 \<le> recharge_rate b \<and> 0 \<le> level b \<longrightarrow> 0 \<le> level (tick b True)) \<and>
   (0 \<le> drain_rate b \<and> level b \<le> 100 \<longrightarrow> level (tick b False) \<le> 100) \<and>
   (0 < amount \<longrightarrow>
      level (battery (manual_drain_battery d amount)) = max 0 (level (battery d) - amount)) \<and>
   (0 < amount \<and> 0 \<le> level (battery d) \<longrightarrow>
      level (battery (manual_drain_battery d amount)) \<le> level (battery d)) \<and>
   (amount \<le> 0 \<longrightarrow> manual_drain_battery d amount = d)"
proof (intro conjI impI)
  assume "0 \<le> drain_rate (battery d) \<and> 0 \<le> recharge_rate (battery d) \<and>
    0 \<le> level (battery d) \<and> level (battery d) \<le> 100"
  then have "level_ok (foldl apply_op d ops)"
    by (intro foldl_apply_op_level_ok) (simp add: level_ok_def)
  then show "0 \<le> level (battery (foldl apply_op d ops))"
    and "level (battery (foldl apply_op d ops)) \<le> 100"
    by (simp_all add: level_ok_def)
next
  assume "amount \<le> 0"
  then show "manual_drain_battery d amount = d" by (rule manual_drain_nonpositive)
qed (auto simp add: tick_level manual_drain_level)

text \<open>
  C10 as stated fails for a battery with a negative drain rate:
  \<^verbatim>\<open>Battery(start=100, drain=-5)\<close> starts in range and one tick without charging
  takes the level to \<open>max 0 (100 + 5) = 105\<close>.
\<close>

theorem C10_counterexample:
  "0 \<le> level (battery ((DroneEdge_init 0 [])\<lparr>battery := Battery_init 100 (- 5) 10 20\<rparr>)) \<and>
   level (battery ((DroneEdge_init 0 [])\<lparr>battery := Battery_init 100 (- 5) 10 20\<rparr>)) \<le> 100 \<and>
   \<not> level (battery (foldl apply_op
        ((DroneEdge_init 0 [])\<lparr>battery := Battery_init 100 (- 5) 10 20\<rparr>) [Tick False])) \<le> 100 \<and>
   level (tick (Battery_init 100 (- 5) 10 20) False) = 105"
  by (simp add: DroneEdge_init_def Battery_init_def tick_def Let_def)

text \<open>
  C10 on the drone as constructed: a tick, a drain by 150, a charging tick and a drain
  by \<open>-3\<close>.
\<close>

theorem C10_level_range_witness:
  "0 \<le> drain_rate (battery (DroneEdge_init 0 [])) \<and>
   0 \<le> recharge_rate (battery (DroneEdge_init 0 [])) \<and>
   0 \<le> level (battery (DroneEdge_init 0 [])) \<and>
   level (battery (DroneEdge_init 0 [])) \<le> 100 \<and>
   0 \<le> level (battery (foldl apply_op (DroneEdge_init 0 [])
          [Tick False, ManualDrain 150, Tick True, ManualDrain (- 3)])) \<and>
   level (battery (foldl apply_op (DroneEdge_init 0 [])
          [Tick False, ManualDrain 150, Tick True, ManualDrain (- 3)])) \<le> 100 \<and>
   0 \<le> recharge_rate (Battery_init 95 3 10 20) \<and> 0 \<le> level (Battery_init 95 3 10 20) \<and>
   0 \<le> level (tick (Battery_init 95 3 10 20) True) \<and>
   0 \<le> drain_rate (Battery_init 95 3 10 20) \<and> level (Battery_init 95 3 10 20) \<le> 100 \<and>
   level (tick (Battery_init 95 3 10 20) False) \<le> 100 \<and>
   (0::int) < 150 \<and>
   level (battery (manual_drain_battery (DroneEdge_init 0 []) 150)) = 0 \<and>
   level (battery (manual_drain_battery (DroneEdge_init 0 []) 150))
     \<le> level (battery (DroneEdge_init 0 [])) \<and>
   (- 3::int) \<le> 0 \<and>
   manual_drain_battery (DroneEdge_init 0 []) (- 3) = DroneEdge_init 0 []"
proof -
  let ?d = "DroneEdge_init 0 []"
  let ?b = "Battery_init 95 3 10 20"
  have pre: "0 \<le> drain_rate (battery ?d) \<and> 0 \<le> recharge_rate (battery ?d) \<and>
      0 \<le> level (battery ?d) \<and> level (battery ?d) \<le> 100"
    by (simp add: DroneEdge_init_def Battery_init_def DRAIN_RATE_def)
  have preb: "0 \<le> recharge_rate ?b \<and> 0 \<le> level ?b \<and> 0 \<le> drain_rate ?b \<and> level ?b \<le> 100"
    by (simp add: Battery_init_def)
  have lv: "level (battery ?d) = 100"
    by (simp add: DroneEdge_init_def Battery_init_def)
  have am: "(0::int) < 150" "(- 3::int) \<le> 0" by simp_all
  note inst = C10_level_range
    [of ?d "[Tick False, ManualDrain 150, Tick True, ManualDrain (- 3)]" ?b 150]
  from pre inst
  have r1: "0 \<le> level (battery (foldl apply_op ?d
          [Tick False, ManualDrain 150, Tick True, ManualDrain (- 3)])) \<and>
      level (battery (foldl apply_op ?d
          [Tick False, ManualDrain 150, Tick True, ManualDrain (- 3)])) \<le> 100"
    by blast
  from preb inst have rb: "0 \<le> level (tick ?b True) \<and> level (tick ?b False) \<le> 100"
    by blast
  from am inst have "level (battery (manual_drain_battery ?d 150)) = max 0 (level (battery ?d) - 150)"
    by blast
  with lv have r2: "level (battery (manual_drain_battery ?d 150)) = 0" by simp
  from am pre inst have r2': "level (battery (manual_drain_battery ?d 150)) \<le> level (battery ?d)"
    by blast
  from am C10_level_range [of ?d "[]" ?b "- 3"]
  have r3: "manual_drain_battery ?d (- 3) = ?d" by blast
  from pre r1 preb rb am r2 r2' r3 show ?thesis by blast
qed

section \<open>Properties of the delivery of reports\<close>

lemma send_report_no_valid:
  "filter valid_reading readings = [] \<Longrightarrow> send_report json_dumps io d readings al = d"
  by (simp add: send_report_def)

lemma send_report_valid:
  "filter valid_reading readings \<noteq> [] \<Longrightarrow>
     send_report json_dumps io d readings al =
       (let rpt = build_report io d (filter valid_reading readings) al;
            d1 = d\<lparr>gui_q := gui_q d @ [GuiReport rpt]\<rparr>
        in case connection io of
             Delivered \<Rightarrow>
               d1\<lparr>central_received := central_received d1 @ [to_bytes json_dumps rpt]\<rparr>
           | OSError \<Rightarrow>
               d1\<lparr>unsent_dir :=
                    write_bytes (time_time io @ ''.json'') (to_bytes json_dumps rpt)
                      (unsent_dir d1)\<rparr>
           | OtherException \<Rightarrow> d1)"
  by (auto simp add: send_report_def Let_def)

lemma send_report_gui_q:
  "filter valid_reading readings \<noteq> [] \<Longrightarrow>
     gui_q (send_report json_dumps io d readings al) =
       gui_q d @ [GuiReport (build_report io d (filter valid_reading readings) al)]"
  by (simp add: send_report_valid Let_def split: conn_result.split)

lemma send_report_filter:
  "send_report json_dumps io d readings al =
     send_report json_dumps io d (filter valid_reading readings) al"
proof (cases "filter valid_reading readings = []")
  case True
  then show ?thesis by (simp add: send_report_def)
next
  case False
  then have "filter valid_reading (filter valid_reading readings) \<noteq> []" by simp
  with False show ?thesis by (simp add: send_report_valid)
qed

lemma set_map_filter_Some:
  "set (List.map_filter f xs) = {s. \<exists>r\<in>set xs. f r = Some s}"
  by (induction xs) (auto simp add: List.map_filter_simps split: option.splits)

lemma sensor_count_card:
  "sensor_count (build_report io d valid al) =
     int (card {s. \<exists>r\<in>set valid. attr_sensor_id r = Some s})"
  by (simp add: build_report_def Let_def length_remdups_card_conv set_map_filter_Some)

text \<open>
  C5. When a batch handed to \<^verbatim>\<open>_send_report\<close> has at least one reading that
  carries both a temperature and a humidity, one report is put out; its average
  temperature and average humidity are the arithmetic means of those readings' values,
  and its sensor count is the number of distinct sensor ids among them. The readings
  that lack one of the two attributes do not count: the call does what it does on the
  list of the valid readings alone. A batch without a valid reading puts out no report
  and changes nothing. (Averages are taken over the reals.)
\<close>

theorem C5_report_averages:
  "(filter valid_reading readings \<noteq> [] \<longrightarrow>
      gui_q (send_report json_dumps io d readings al) =
        gui_q d @ [GuiReport (build_report io d (filter valid_reading readings) al)]) \<and>
   avg_temperature (build_report io d (filter valid_reading readings) al) =
     arithmetic_mean (map (\<lambda>r. the (attr_temperature r)) (filter valid_reading readings)) \<and>
   avg_humidity (build_report io d (filter valid_reading readings) al) =
     arithmetic_mean (map (\<lambda>r. the (attr_humidity r)) (filter valid_reading readings)) \<and>
   sensor_count (build_report io d (filter valid_reading readings) al) =
     int (card {s. \<exists>r\<in>set (filter valid_reading readings). attr_sensor_id r = Some s}) \<and>
   send_report json_dumps io d readings al =
     send_report json_dumps io d (filter valid_reading readings) al \<and>
   (filter valid_reading readings = [] \<longrightarrow> send_report json_dumps io d readings al = d)"
proof (intro conjI impI)
  show "send_report json_dumps io d readings al =
     send_report json_dumps io d (filter valid_reading readings) al"
    by (rule send_report_filter)
  show "sensor_count (build_report io d (filter valid_reading readings) al) =
     int (card {s. \<exists>r\<in>set (filter valid_reading readings). attr_sensor_id r = Some s})"
    by (rule sensor_count_card)
qed (simp_all add: send_report_gui_q send_report_no_valid build_report_def arithmetic_mean_def)

lemma sample_objects_valid:
  "filter valid_reading sample_objects =
     [\<lparr>attr_sensor_id = Some ''s1'', attr_temperature = Some 20, attr_humidity = Some 40\<rparr>,
      \<lparr>attr_sensor_id = Some ''s2'', attr_temperature = Some 30, attr_humidity = Some 60\<rparr>,
      \<lparr>attr_sensor_id = Some ''s1'', attr_temperature = Some 10, attr_humidity = Some 50\<rparr>]"
  by (simp add: sample_objects_def valid_reading_def)

text \<open>
  C5 on the sample objects: three of the four are valid, with temperatures 20, 30, 10 and
  humidities 40, 60, 50, from two sensors; the object without humidity alone gives no
  report.
\<close>

theorem C5_report_averages_witness:
  "filter valid_reading sample_objects \<noteq> [] \<and>
   gui_q (send_report sample_dumps (sample_io Delivered) (DroneEdge_init 0 []) sample_objects []) =
     [GuiReport (build_report (sample_io Delivered) (DroneEdge_init 0 [])
        (filter valid_reading sample_objects) [])] \<and>
   avg_temperature (build_report (sample_io Delivered) (DroneEdge_init 0 [])
        (filter valid_reading sample_objects) []) = 20 \<and>
   avg_humidity (build_report (sample_io Delivered) (DroneEdge_init 0 [])
        (filter valid_reading sample_objects) []) = 50 \<and>
   sensor_count (build_report (sample_io Delivered) (DroneEdge_init 0 [])
        (filter valid_reading sample_objects) []) = 2 \<and>
   filter valid_reading [sample_objects ! 2] = [] \<and>
   send_report sample_dumps (sample_io Delivered) (DroneEdge_init 0 []) [sample_objects ! 2] [] =
     DroneEdge_init 0 []"
proof -
  let ?d = "DroneEdge_init 0 []"
  let ?io = "sample_io Delivered"
  note inst = C5_report_averages [of sample_objects sample_dumps ?io ?d "[]"]
  have ne: "filter valid_reading sample_objects \<noteq> []"
    by (simp add: sample_objects_valid)
  have g0: "gui_q ?d = []" by (simp add: DroneEdge_init_def)
  from inst ne have
    "gui_q (send_report sample_dumps ?io ?d sample_objects []) =
       gui_q ?d @ [GuiReport (build_report ?io ?d (filter valid_reading sample_objects) [])]"
    by blast
  then have r1:
    "gui_q (send_report sample_dumps ?io ?d sample_objects []) =
       [GuiReport (build_report ?io ?d (filter valid_reading sample_objects) [])]"
    by (simp only: g0 append_Nil)
  from inst have "avg_temperature (build_report ?io ?d (filter valid_reading sample_objects) []) =
      arithmetic_mean (map (\<lambda>r. the (attr_temperature r)) (filter valid_reading sample_objects))"
    by blast
  then have r2: "avg_temperature (build_report ?io ?d (filter valid_reading sample_objects) []) = 20"
    by (simp add: sample_objects_valid arithmetic_mean_def)
  from inst have "avg_humidity (build_report ?io ?d (filter valid_reading sample_objects) []) =
      arithmetic_mean (map (\<lambda>r. the (attr_humidity r)) (filter valid_reading sample_objects))"
    by blast
  then have r3: "avg_humidity (build_report ?io ?d (filter valid_reading sample_objects) []) = 50"
    by (simp add: sample_objects_valid arithmetic_mean_def)
  have r4: "sensor_count (build_report ?io ?d (filter valid_reading sample_objects) []) = 2"
    by (simp add: sample_objects_valid build_report_def List.map_filter_simps)
  have e: "filter valid_reading [sample_objects ! 2] = []"
    by (simp add: sample_objects_def valid_reading_def)
  with C5_report_averages [of "[sample_objects ! 2]" sample_dumps ?io ?d "[]"]
  have r5: "send_report sample_dumps ?io ?d [sample_objects ! 2] [] = ?d"
    by blast
  from ne r1 r2 r3 r4 e r5 show ?thesis by blast
qed

lemma send_report_OSError:
  "filter valid_reading readings \<noteq> [] \<Longrightarrow> connection io = OSError \<Longrightarrow>
     send_report json_dumps io d readings al =
       d\<lparr>gui_q := gui_q d @ [GuiReport (build_report io d (filter valid_reading readings) al)],
         unsent_dir := write_bytes (time_time io @ ''.json'')
            (to_bytes json_dumps (build_report io d (filter valid_reading readings) al))
            (unsent_dir d)\<rparr>"
  by (simp add: send_report_valid Let_def)

lemma send_report_Delivered:
  "filter valid_reading readings \<noteq> [] \<Longrightarrow> connection io = Delivered \<Longrightarrow>
     send_report json_dumps io d readings al =
       d\<lparr>gui_q := gui_q d @ [GuiReport (build_report io d (filter valid_reading readings) al)],
         central_received := central_received d @
            [to_bytes json_dumps (build_report io d (filter valid_reading readings) al)]\<rparr>"
  by (simp add: send_report_valid Let_def)

lemma send_report_OtherException:
  "filter valid_reading readings \<noteq> [] \<Longrightarrow> connection io = OtherException \<Longrightarrow>
     send_report json_dumps io d readings al =
       d\<lparr>gui_q := gui_q d @ [GuiReport (build_report io d (filter valid_reading readings) al)]\<rparr>"
  by (simp add: send_report_valid Let_def)

lemma write_bytes_new:
  "name \<notin> fst ` set dir \<Longrightarrow> write_bytes name content dir = dir @ [(name, content)]"
  unfolding write_bytes_def by (induction dir) auto

lemma map_of_write_bytes:
  "map_of (write_bytes name content dir) = (map_of dir)(name \<mapsto> content)"
  by (simp add: write_bytes_def update_conv')

text \<open>
  C6 (as amended). For a report that is built (the batch has a valid reading): when the
  connection fails with an \<^verbatim>\<open>OSError\<close>, the encoded report is stored under the
  name made of the clock reading and \<^verbatim>\<open>.json\<close>, every other file keeps its
  content, and nothing reaches the central server; the file is a new entry of the
  directory whenever no file of that name was there. When the frame is delivered, the
  directory is unchanged and the central server has received exactly the encoded report.
  When another exception is raised, neither happens. In all three cases the result is a
  state: the call returns to its caller.
\<close>

theorem C6_send_or_store:
  "filter valid_reading readings \<noteq> [] \<longrightarrow>
     (connection io = OSError \<longrightarrow>
        map_of (unsent_dir (send_report json_dumps io d readings al)) =
          (map_of (unsent_dir d))(time_time io @ ''.json'' \<mapsto>
             to_bytes json_dumps (build_report io d (filter valid_reading readings) al)) \<and>
        (time_time io @ ''.json'' \<notin> fst ` set (unsent_dir d) \<longrightarrow>
           unsent_dir (send_report json_dumps io d readings al) =
             unsent_dir d @ [(time_time io @ ''.json'',
                to_bytes json_dumps (build_report io d (filter valid_reading readings) al))]) \<and>
        central_received (send_report json_dumps io d readings al) = central_received d) \<and>
     (connection io = Delivered \<longrightarrow>
        unsent_dir (send_report json_dumps io d readings al) = unsent_dir d \<and>
        central_received (send_report json_dumps io d readings al) =
          central_received d @
            [to_bytes json_dumps (build_report io d (filter valid_reading readings) al)]) \<and>
     (connection io = OtherException \<longrightarrow>
        unsent_dir (send_report json_dumps io d readings al) = unsent_dir d \<and>
        central_received (send_report json_dumps io d readings al) = central_received d)"
  by (simp add: send_report_OSError send_report_Delivered send_report_OtherException
      map_of_write_bytes write_bytes_new)

text \<open>
  C6 as stated fails when the clock reading repeats the name of a stored file: the
  directory holds one file before and one file after the failed delivery, under the
  same name, and the earlier content is gone. The name comes from
  \<^verbatim>\<open>time.time()\<close> alone and \<^verbatim>\<open>write_bytes\<close> replaces an existing file.
\<close>

theorem C6_counterexample:
  "connection (sample_io OSError) = OSError \<and>
   filter valid_reading sample_objects \<noteq> [] \<and>
   unsent_dir (DroneEdge_init 0 [(''1747232979.5.json'', ''earlier report'')]) =
     [(''1747232979.5.json'', ''earlier report'')] \<and>
   unsent_dir (send_report sample_dumps (sample_io OSError)
        (DroneEdge_init 0 [(''1747232979.5.json'', ''earlier report'')]) sample_objects []) =
     [(''1747232979.5.json'', ''{drone_id: drone1, status: active}'' @ DELIM)]"
  by (simp add: sample_objects_valid send_report_OSError sample_io_def DroneEdge_init_def
      write_bytes_def to_bytes_def sample_dumps_def build_report_def Battery_init_def)


text \<open>
  C6 on the new drone with an empty directory: a failed connection stores one file, a
  successful one stores none and delivers the frame.
\<close>

theorem C6_send_or_store_witness:
  "filter valid_reading sample_objects \<noteq> [] \<and>
   connection (sample_io OSError) = OSError \<and>
   time_time (sample_io OSError) @ ''.json'' \<notin> fst ` set (unsent_dir (DroneEdge_init 0 [])) \<and>
   unsent_dir (send_report sample_dumps (sample_io OSError) (DroneEdge_init 0 []) sample_objects []) =
     [(''1747232979.5.json'', ''{drone_id: drone1, status: active}'' @ DELIM)] \<and>
   central_received
     (send_report sample_dumps (sample_io OSError) (DroneEdge_init 0 []) sample_objects []) = [] \<and>
   connection (sample_io Delivered) = Delivered \<and>
   unsent_dir
     (send_report sample_dumps (sample_io Delivered) (DroneEdge_init 0 []) sample_objects []) = [] \<and>
   central_received
     (send_report sample_dumps (sample_io Delivered) (DroneEdge_init 0 []) sample_objects []) =
     [''{drone_id: drone1, status: active}'' @ DELIM] \<and>
   connection (sample_io OtherException) = OtherException \<and>
   unsent_dir
     (send_report sample_dumps (sample_io OtherException) (DroneEdge_init 0 []) sample_objects []) = [] \<and>
   central_received
     (send_report sample_dumps (sample_io OtherException) (DroneEdge_init 0 []) sample_objects []) = []"
proof -
  let ?d = "DroneEdge_init 0 []"
  have ne: "filter valid_reading sample_objects \<noteq> []"
    by (simp add: sample_objects_valid)
  have c1: "connection (sample_io OSError) = OSError"
    and c2: "connection (sample_io Delivered) = Delivered"
    by (simp_all add: sample_io_def)
  have fresh: "time_time (sample_io OSError) @ ''.json'' \<notin> fst ` set (unsent_dir ?d)"
    by (simp add: DroneEdge_init_def)
  have d0: "unsent_dir ?d = []" "central_received ?d = []"
    by (simp_all add: DroneEdge_init_def)
  have nm: "time_time (sample_io OSError) @ ''.json'' = ''1747232979.5.json''"
    by (simp add: sample_io_def)
  have b1: "to_bytes sample_dumps
       (build_report (sample_io OSError) ?d (filter valid_reading sample_objects) []) =
      ''{drone_id: drone1, status: active}'' @ DELIM"
    by (simp add: to_bytes_def sample_dumps_def build_report_def DroneEdge_init_def
        Battery_init_def)
  have b2: "to_bytes sample_dumps
       (build_report (sample_io Delivered) ?d (filter valid_reading sample_objects) []) =
      ''{drone_id: drone1, status: active}'' @ DELIM"
    by (simp add: to_bytes_def sample_dumps_def build_report_def DroneEdge_init_def
        Battery_init_def)
  from C6_send_or_store [of sample_objects "sample_io OSError" sample_dumps ?d "[]"] ne c1 fresh
  have "unsent_dir (send_report sample_dumps (sample_io OSError) ?d sample_objects []) =
      unsent_dir ?d @ [(time_time (sample_io OSError) @ ''.json'',
        to_bytes sample_dumps
          (build_report (sample_io OSError) ?d (filter valid_reading sample_objects) []))] \<and>
     central_received (send_report sample_dumps (sample_io OSError) ?d sample_objects []) =
       central_received ?d"
    by blast
  then have r1:
    "unsent_dir (send_report sample_dumps (sample_io OSError) ?d sample_objects []) =
       [(''1747232979.5.json'', ''{drone_id: drone1, status: active}'' @ DELIM)] \<and>
     central_received (send_report sample_dumps (sample_io OSError) ?d sample_objects []) = []"
    by (simp only: d0 nm b1 append_Nil)
  from C6_send_or_store [of sample_objects "sample_io Delivered" sample_dumps ?d "[]"] ne c2
  have "unsent_dir (send_report sample_dumps (sample_io Delivered) ?d sample_objects []) =
      unsent_dir ?d \<and>
     central_received (send_report sample_dumps (sample_io Delivered) ?d sample_objects []) =
       central_received ?d @ [to_bytes sample_dumps
          (build_report (sample_io Delivered) ?d (filter valid_reading sample_objects) [])]"
    by blast
  then have r2:
    "unsent_dir (send_report sample_dumps (sample_io Delivered) ?d sample_objects []) = [] \<and>
     central_received (send_report sample_dumps (sample_io Delivered) ?d sample_objects []) =
       [''{drone_id: drone1, status: active}'' @ DELIM]"
    by (simp only: d0 b2 append_Nil)
  have c3: "connection (sample_io OtherException) = OtherException"
    by (simp add: sample_io_def)
  from C6_send_or_store [of sample_objects "sample_io OtherException" sample_dumps ?d "[]"] ne c3
  have "unsent_dir (send_report sample_dumps (sample_io OtherException) ?d sample_objects []) =
      unsent_dir ?d \<and>
     central_received (send_report sample_dumps (sample_io OtherException) ?d sample_objects []) =
       central_received ?d"
    by blast
  then have r3:
    "unsent_dir (send_report sample_dumps (sample_io OtherException) ?d sample_objects []) = [] \<and>
     central_received (send_report sample_dumps (sample_io OtherException) ?d sample_objects []) = []"
    by (simp only: d0)
  from ne c1 fresh r1 c2 r2 c3 r3 show ?thesis by blast
qed

section \<open>Properties of the retry loop\<close>

lemma resend_one_stop [simp]: "stop_set (resend_one conn f d) = stop_set d"
  by (simp add: resend_one_def split: option.split conn_result.split)

lemma resend_one_dir:
  "unsent_dir (resend_one conn f d) =
     (if conn f = Delivered then unlink f (unsent_dir d) else unsent_dir d)"
proof (cases "read_bytes (unsent_dir d) f")
  case None
  then have "f \<notin> fst ` set (unsent_dir d)"
    by (simp add: read_bytes_def map_of_eq_None_iff)
  then have "unlink f (unsent_dir d) = unsent_dir d"
    by (simp add: unlink_def)
  with None show ?thesis by (simp add: resend_one_def)
next
  case (Some c)
  then show ?thesis by (simp add: resend_one_def split: conn_result.split)
qed

text \<open>The frames one attempt delivers: the stored bytes, if the file is there and the
  connection succeeds.\<close>

lemma resend_one_received:
  "central_received (resend_one conn f d) =
     central_received d @
       (case read_bytes (unsent_dir d) f of
          None \<Rightarrow> []
        | Some c \<Rightarrow> if conn f = Delivered then [c] else [])"
  by (simp add: resend_one_def split: option.split conn_result.split)

lemma resend_all_stop [simp]: "stop_set (resend_all conn ns d) = stop_set d"
  by (induction ns arbitrary: d) simp_all

lemma resend_all_stopped: "stop_set d \<Longrightarrow> resend_all conn ns d = d"
  by (cases ns) simp_all

lemma resend_all_dir:
  "\<not> stop_set d \<Longrightarrow>
     unsent_dir (resend_all conn ns d) =
       filter (\<lambda>(name, content). \<not> (name \<in> set ns \<and> conn name = Delivered)) (unsent_dir d)"
proof (induction ns arbitrary: d)
  case Nil
  then show ?case by simp
next
  case (Cons f fs)
  from Cons.prems have "\<not> stop_set (resend_one conn f d)" by simp
  from Cons.IH [OF this] Cons.prems show ?case
    by (auto simp add: resend_one_dir unlink_def AList.delete_eq intro!: filter_cong)
qed

lemma resend_all_received:
  "\<not> stop_set d \<Longrightarrow> distinct ns \<Longrightarrow>
     central_received (resend_all conn ns d) =
       central_received d @
         concat (map (\<lambda>f. case read_bytes (unsent_dir d) f of
                            None \<Rightarrow> []
                          | Some c \<Rightarrow> if conn f = Delivered then [c] else []) ns)"
proof (induction ns arbitrary: d)
  case Nil
  then show ?case by simp
next
  case (Cons f fs)
  from Cons.prems have ns: "\<not> stop_set (resend_one conn f d)" and dfs: "distinct fs"
    and nf: "f \<notin> set fs"
    by simp_all
  have same: "read_bytes (unsent_dir (resend_one conn f d)) g = read_bytes (unsent_dir d) g"
    if "g \<in> set fs" for g
  proof -
    from that nf have "g \<noteq> f" by auto
    then show ?thesis
      by (simp add: resend_one_dir unlink_def read_bytes_def)
  qed
  have "map (\<lambda>g. case read_bytes (unsent_dir (resend_one conn f d)) g of
                    None \<Rightarrow> []
                  | Some c \<Rightarrow> if conn g = Delivered then [c] else []) fs =
        map (\<lambda>g. case read_bytes (unsent_dir d) g of
                    None \<Rightarrow> []
                  | Some c \<Rightarrow> if conn g = Delivered then [c] else []) fs"
    by (rule map_cong) (simp_all add: same)
  with Cons.IH [OF ns dfs] Cons.prems show ?case
    by (simp add: resend_one_received)
qed

lemma concat_lookup_filter:
  "\<forall>(n, c) \<in> set dir. m n = Some c \<Longrightarrow>
     concat (map (\<lambda>f. case m f of None \<Rightarrow> [] | Some c \<Rightarrow> if P f then [c] else [])
       (filter Q (map fst dir))) =
     map snd (filter (\<lambda>(n, c). Q n \<and> P n) dir)"
  by (induction dir) (auto split: if_splits)

lemma glob_json_distinct:
  "distinct (map fst dir) \<Longrightarrow> distinct (glob_json dir)"
  by (simp add: glob_json_def)

lemma set_glob_json:
  "set (glob_json dir) = {n \<in> fst ` set dir. endswith n ''.json''}"
  by (auto simp add: glob_json_def)

lemma retry_dir:
  assumes "\<not> stop_set d"
  shows "unsent_dir (retry_unsent_reports conn d) =
     filter (\<lambda>(name, content). \<not> (endswith name ''.json'' \<and> conn name = Delivered))
       (unsent_dir d)"
proof (cases "unsent_dir d = []")
  case True
  then show ?thesis by (simp add: retry_unsent_reports_def)
next
  case False
  have "filter (\<lambda>(name, content). \<not> (name \<in> set (glob_json (unsent_dir d)) \<and> conn name = Delivered))
          (unsent_dir d) =
        filter (\<lambda>(name, content). \<not> (endswith name ''.json'' \<and> conn name = Delivered))
          (unsent_dir d)"
    by (rule filter_cong) (auto simp add: set_glob_json image_iff)
  with False assms show ?thesis
    by (simp add: retry_unsent_reports_def resend_all_dir)
qed

lemma retry_received:
  assumes "\<not> stop_set d" and dist: "distinct (map fst (unsent_dir d))"
  shows "central_received (retry_unsent_reports conn d) =
     central_received d @
       map snd (filter (\<lambda>(name, content). endswith name ''.json'' \<and> conn name = Delivered)
         (unsent_dir d))"
proof (cases "unsent_dir d = []")
  case True
  then show ?thesis by (simp add: retry_unsent_reports_def)
next
  case False
  from dist have look: "\<forall>(n, c) \<in> set (unsent_dir d). read_bytes (unsent_dir d) n = Some c"
    by (auto simp add: read_bytes_def)
  from False assms show ?thesis
    by (simp add: retry_unsent_reports_def resend_all_received glob_json_distinct)
       (simp add: glob_json_def concat_lookup_filter [OF look])
qed

lemma retry_stopped: "stop_set d \<Longrightarrow> retry_unsent_reports conn d = d"
  by (simp add: retry_unsent_reports_def resend_all_stopped)


lemma write_bytes_distinct:
  "distinct (map fst dir) \<Longrightarrow> distinct (map fst (write_bytes name content dir))"
  by (simp add: write_bytes_def distinct_update)

lemma unlink_distinct:
  "distinct (map fst dir) \<Longrightarrow> distinct (map fst (unlink name dir))"
  by (simp add: unlink_def distinct_delete)

lemma send_report_distinct:
  "distinct (map fst (unsent_dir d)) \<Longrightarrow>
     distinct (map fst (unsent_dir (send_report j io d rs al)))"
  by (simp add: send_report_def Let_def write_bytes_distinct split: conn_result.split)

lemma resend_all_distinct:
  "distinct (map fst (unsent_dir d)) \<Longrightarrow>
     distinct (map fst (unsent_dir (resend_all conn ns d)))"
proof (induction ns arbitrary: d)
  case Nil
  then show ?case by simp
next
  case (Cons f fs)
  from Cons.prems have "distinct (map fst (unsent_dir (resend_one conn f d)))"
    by (simp add: resend_one_dir unlink_distinct)
  from Cons.IH [OF this] Cons.prems show ?case by simp
qed

lemma retry_distinct:
  "distinct (map fst (unsent_dir d)) \<Longrightarrow>
     distinct (map fst (unsent_dir (retry_unsent_reports conn d)))"
  by (simp add: retry_unsent_reports_def resend_all_distinct)

lemma map_of_filter_keys:
  assumes "distinct (map fst dir)" and "(n, c) \<in> set dir"
  shows "map_of (filter (\<lambda>(k, v). Q k) dir) n = (if Q n then Some c else None)"
proof (cases "Q n")
  case True
  from assms have "map_of dir n = Some c" by simp
  from map_of_filter_in [OF this, of "\<lambda>k v. Q k"] True show ?thesis by simp
next
  case False
  then have "n \<notin> fst ` set (filter (\<lambda>(k, v). Q k) dir)" by auto
  with False show ?thesis by (simp add: map_of_eq_None_iff)
qed

lemma to_bytes_ends_with_DELIM: "endswith (to_bytes json_dumps rpt) DELIM"
  by (simp add: endswith_def to_bytes_def DELIM_def)

text \<open>
  C7 (as amended). In one pass of the retry loop over a directory of distinctly named
  files, while the stop event is not set: the files whose name ends in
  \<^verbatim>\<open>.json\<close> and whose connection delivers are removed, and their stored bytes,
  unchanged and once each, in the order of the listing, are what the central server
  receives; every other file, whether its connection failed or its name does not end in
  \<^verbatim>\<open>.json\<close>, is still there with the bytes it had. The content of a file is
  never looked at. When the stop event is set the pass changes nothing.
\<close>

theorem C7_retry_pass:
  "(\<not> stop_set d \<and> distinct (map fst (unsent_dir d)) \<longrightarrow>
      unsent_dir (retry_unsent_reports conn d) =
        filter (\<lambda>(name, content). \<not> (endswith name ''.json'' \<and> conn name = Delivered))
          (unsent_dir d) \<and>
      central_received (retry_unsent_reports conn d) =
        central_received d @
          map snd (filter (\<lambda>(name, content). endswith name ''.json'' \<and> conn name = Delivered)
            (unsent_dir d)) \<and>
      distinct (map fst (unsent_dir (retry_unsent_reports conn d))) \<and>
      (\<forall>(name, content) \<in> set (unsent_dir d).
         (endswith name ''.json'' \<and> conn name = Delivered \<longrightarrow>
            read_bytes (unsent_dir (retry_unsent_reports conn d)) name = None \<and>
            content \<in> set (central_received (retry_unsent_reports conn d))) \<and>
         (\<not> (endswith name ''.json'' \<and> conn name = Delivered) \<longrightarrow>
            read_bytes (unsent_dir (retry_unsent_reports conn d)) name = Some content))) \<and>
   (stop_set d \<longrightarrow> retry_unsent_reports conn d = d)"
proof (intro conjI impI)
  assume "stop_set d"
  then show "retry_unsent_reports conn d = d" by (rule retry_stopped)
next
  assume a: "\<not> stop_set d \<and> distinct (map fst (unsent_dir d))"
  then show dir: "unsent_dir (retry_unsent_reports conn d) =
        filter (\<lambda>(name, content). \<not> (endswith name ''.json'' \<and> conn name = Delivered))
          (unsent_dir d)"
    by (simp add: retry_dir)
  from a show "distinct (map fst (unsent_dir (retry_unsent_reports conn d)))"
    by (simp add: retry_distinct)
  from a show rx: "central_received (retry_unsent_reports conn d) =
        central_received d @
          map snd (filter (\<lambda>(name, content). endswith name ''.json'' \<and> conn name = Delivered)
            (unsent_dir d))"
    by (simp add: retry_received)
  show "\<forall>(name, content) \<in> set (unsent_dir d).
         (endswith name ''.json'' \<and> conn name = Delivered \<longrightarrow>
            read_bytes (unsent_dir (retry_unsent_reports conn d)) name = None \<and>
            content \<in> set (central_received (retry_unsent_reports conn d))) \<and>
         (\<not> (endswith name ''.json'' \<and> conn name = Delivered) \<longrightarrow>
            read_bytes (unsent_dir (retry_unsent_reports conn d)) name = Some content)"
  proof (clarify, intro conjI impI)
    fix name content
    assume mem: "(name, content) \<in> set (unsent_dir d)"
    from a have dist: "distinct (map fst (unsent_dir d))" by simp
    note look = map_of_filter_keys [OF dist mem,
        of "\<lambda>k. \<not> (endswith k ''.json'' \<and> conn k = Delivered)"]
    {
      assume s: "endswith name ''.json'' \<and> conn name = Delivered"
      with look show "read_bytes (unsent_dir (retry_unsent_reports conn d)) name = None"
        by (simp add: read_bytes_def dir)
      from s mem have "content \<in> snd ` set (filter
          (\<lambda>(name, content). endswith name ''.json'' \<and> conn name = Delivered) (unsent_dir d))"
        by force
      then show "content \<in> set (central_received (retry_unsent_reports conn d))"
        by (simp add: rx)
    }
    {
      assume "\<not> (endswith name ''.json'' \<and> conn name = Delivered)"
      with look show "read_bytes (unsent_dir (retry_unsent_reports conn d)) name = Some content"
        by (simp add: read_bytes_def dir)
    }
  qed
qed

text \<open>
  C7 as stated fails for corrupt content. The bytes \<^verbatim>\<open>not json\<close> are not the
  encoding of a report (every encoding ends with the delimiter). With the collector
  unreachable the file is still there after the pass; with the collector reachable the
  bytes are sent as they are and the file is removed like any delivered report.
\<close>

theorem C7_counterexample:
  "\<not> endswith ''not json'' DELIM \<and>
   unsent_dir (retry_unsent_reports collector_down
       (DroneEdge_init 0 [(''1.0.json'', ''not json'')])) = [(''1.0.json'', ''not json'')] \<and>
   unsent_dir (retry_unsent_reports collector_up
       (DroneEdge_init 0 [(''1.0.json'', ''not json'')])) = [] \<and>
   central_received (retry_unsent_reports collector_up
       (DroneEdge_init 0 [(''1.0.json'', ''not json'')])) = [''not json'']"
  by (simp add: endswith_def DELIM_def retry_unsent_reports_def glob_json_def
      DroneEdge_init_def resend_one_def read_bytes_def unlink_def collector_down_def
      collector_up_def)

text \<open>
  C7 on the sample directory: the first report is delivered and removed, the second,
  whose connection fails, and the file that is no report stay as they are.
\<close>

theorem C7_retry_pass_witness:
  "\<not> stop_set (DroneEdge_init 0 sample_dir) \<and>
   distinct (map fst (unsent_dir (DroneEdge_init 0 sample_dir))) \<and>
   unsent_dir (retry_unsent_reports sample_conn (DroneEdge_init 0 sample_dir)) =
     [(''notes.txt'', ''memo''), (''2.0.json'', ''second'')] \<and>
   central_received (retry_unsent_reports sample_conn (DroneEdge_init 0 sample_dir)) =
     [''first''] \<and>
   (''1.0.json'', ''first'') \<in> set (unsent_dir (DroneEdge_init 0 sample_dir)) \<and>
   endswith ''1.0.json'' ''.json'' \<and> sample_conn ''1.0.json'' = Delivered \<and>
   read_bytes (unsent_dir (retry_unsent_reports sample_conn (DroneEdge_init 0 sample_dir)))
     ''1.0.json'' = None \<and>
   (''2.0.json'', ''second'') \<in> set (unsent_dir (DroneEdge_init 0 sample_dir)) \<and>
   endswith ''2.0.json'' ''.json'' \<and> sample_conn ''2.0.json'' = OSError \<and>
   read_bytes (unsent_dir (retry_unsent_reports sample_conn (DroneEdge_init 0 sample_dir)))
     ''2.0.json'' = Some ''second'' \<and>
   stop_set (stop (DroneEdge_init 0 sample_dir)) \<and>
   retry_unsent_reports sample_conn (stop (DroneEdge_init 0 sample_dir)) =
     stop (DroneEdge_init 0 sample_dir)"
proof -
  let ?d = "DroneEdge_init 0 sample_dir"
  have pre: "\<not> stop_set ?d \<and> distinct (map fst (unsent_dir ?d))"
    by (simp add: DroneEdge_init_def sample_dir_def)
  have dir0: "unsent_dir ?d = sample_dir" and rx0: "central_received ?d = []"
    by (simp_all add: DroneEdge_init_def)
  from pre C7_retry_pass [of ?d sample_conn]
  have "unsent_dir (retry_unsent_reports sample_conn ?d) =
        filter (\<lambda>(name, content). \<not> (endswith name ''.json'' \<and> sample_conn name = Delivered))
          (unsent_dir ?d) \<and>
      central_received (retry_unsent_reports sample_conn ?d) =
        central_received ?d @
          map snd (filter (\<lambda>(name, content). endswith name ''.json'' \<and> sample_conn name = Delivered)
            (unsent_dir ?d))"
    by blast
  moreover have "filter (\<lambda>(name, content). \<not> (endswith name ''.json'' \<and> sample_conn name = Delivered))
        sample_dir = [(''notes.txt'', ''memo''), (''2.0.json'', ''second'')]"
    by (simp add: sample_dir_def sample_conn_def endswith_def)
  moreover have "map snd (filter (\<lambda>(name, content). endswith name ''.json'' \<and> sample_conn name = Delivered)
        sample_dir) = [''first'']"
    by (simp add: sample_dir_def sample_conn_def endswith_def)
  ultimately have r1: "unsent_dir (retry_unsent_reports sample_conn ?d) =
       [(''notes.txt'', ''memo''), (''2.0.json'', ''second'')] \<and>
     central_received (retry_unsent_reports sample_conn ?d) = [''first'']"
    by (simp only: dir0 rx0 append_Nil)
  have st: "stop_set (stop ?d)" by (simp add: stop_def)
  with C7_retry_pass [of "stop ?d" sample_conn]
  have r2: "retry_unsent_reports sample_conn (stop ?d) = stop ?d" by blast
  have mem: "(''1.0.json'', ''first'') \<in> set (unsent_dir ?d) \<and>
      endswith ''1.0.json'' ''.json'' \<and> sample_conn ''1.0.json'' = Delivered \<and>
      (''2.0.json'', ''second'') \<in> set (unsent_dir ?d) \<and>
      endswith ''2.0.json'' ''.json'' \<and> sample_conn ''2.0.json'' = OSError"
    by (simp add: DroneEdge_init_def sample_dir_def endswith_def sample_conn_def)
  from pre C7_retry_pass [of ?d sample_conn]
  have each: "\<forall>(name, content) \<in> set (unsent_dir ?d).
      (endswith name ''.json'' \<and> sample_conn name = Delivered \<longrightarrow>
         read_bytes (unsent_dir (retry_unsent_reports sample_conn ?d)) name = None \<and>
         content \<in> set (central_received (retry_unsent_reports sample_conn ?d))) \<and>
      (\<not> (endswith name ''.json'' \<and> sample_conn name = Delivered) \<longrightarrow>
         read_bytes (unsent_dir (retry_unsent_reports sample_conn ?d)) name = Some content)"
    by blast
  from mem each
  have r3: "read_bytes (unsent_dir (retry_unsent_reports sample_conn ?d)) ''1.0.json'' = None"
    by blast
  from mem each
  have r4: "read_bytes (unsent_dir (retry_unsent_reports sample_conn ?d)) ''2.0.json'' =
      Some ''second''"
    by fastforce
  from pre r1 mem r3 r4 st r2 show ?thesis by blast
qed

section \<open>Properties of the forwarding loop\<close>

lemmas loop_defs = observe_def observe_batch_def forward_iteration_def battery_tick_def
    should_charge_this_tick_def status_change_def queue_reading_def flush_batch_def tick_def
    Let_def tick_env_def env_at_def forward_start_def DroneEdge_init_def Battery_init_def
    DRAIN_RATE_def EFFECTIVE_BATTERY_TICK_INTERVAL_def CRITICAL_BATTERY_THRESHOLD_def
    FORWARD_BATCH_def stop_def

lemma send_report_frame [simp]:
  "battery (send_report j io d rs al) = battery d"
  "readings_q (send_report j io d rs al) = readings_q d"
  "stop_set (send_report j io d rs al) = stop_set d"
  "travel_ticks_remaining (send_report j io d rs al) = travel_ticks_remaining d"
  by (simp_all add: send_report_def Let_def split: conn_result.split)

lemma build_report_battery:
  "battery d = battery e \<Longrightarrow> build_report io d v al = build_report io e v al"
  by (simp add: build_report_def)

lemma valid_as_object [simp]: "filter valid_reading (map as_object xs) = map as_object xs"
  by (induction xs) (simp_all add: valid_reading_def as_object_def)

lemma should_charge_frame [simp]:
  "battery (snd (should_charge_this_tick d)) = battery d"
  "gui_q (snd (should_charge_this_tick d)) = gui_q d"
  "central_received (snd (should_charge_this_tick d)) = central_received d"
  "unsent_dir (snd (should_charge_this_tick d)) = unsent_dir d"
  "readings_q (snd (should_charge_this_tick d)) = readings_q d"
  "stop_set (snd (should_charge_this_tick d)) = stop_set d"
  by (simp_all add: should_charge_this_tick_def)

lemma should_charge_flag:
  "fst (should_charge_this_tick d) =
     (returning (battery d) \<and> \<not> 0 < travel_ticks_remaining d)"
  by (simp add: should_charge_this_tick_def)

lemma battery_tick_frame [simp]:
  "gui_q (snd (battery_tick now d)) = gui_q d"
  "central_received (snd (battery_tick now d)) = central_received d"
  "unsent_dir (snd (battery_tick now d)) = unsent_dir d"
  "readings_q (snd (battery_tick now d)) = readings_q d"
  by (simp_all add: battery_tick_def Let_def stop_def case_prod_beta)

lemma battery_tick_battery:
  "battery (snd (battery_tick now d)) =
     (if EFFECTIVE_BATTERY_TICK_INTERVAL \<le> now - last_battery_tick_time d
      then tick (battery d) (returning (battery d) \<and> \<not> 0 < travel_ticks_remaining d)
      else battery d)"
  by (simp add: battery_tick_def Let_def stop_def case_prod_beta should_charge_flag)

lemma status_change_battery [simp]:
  "battery (drone (status_change j io st)) = battery (drone st)"
  by (simp add: status_change_def Let_def)

lemma status_change_quiet:
  assumes "\<not> (last_known_returning_status st \<and> \<not> returning (battery (drone st)))"
  shows "gui_q (drone (status_change j io st)) = gui_q (drone st)"
    and "central_received (drone (status_change j io st)) = central_received (drone st)"
    and "unsent_dir (drone (status_change j io st)) = unsent_dir (drone st)"
    and "readings_q (drone (status_change j io st)) = readings_q (drone st)"
    and "batch (status_change j io st) = batch st"
    and "batch_anomalies (status_change j io st) = batch_anomalies st"
  using assms by (auto simp add: status_change_def Let_def)

lemma status_change_flush:
  assumes "last_known_returning_status st" "\<not> returning (battery (drone st))" "batch st \<noteq> []"
  shows "status_change j io st =
     st\<lparr>drone := send_report j io ((drone st)\<lparr>charging_started_log_sent := False\<rparr>)
                     (map as_object (batch st)) (batch_anomalies st),
        batch := [], batch_anomalies := [], last_known_returning_status := False\<rparr>"
  using assms by (simp add: status_change_def Let_def)

lemma queue_reading_fields:
  "batch (snd (queue_reading st)) = batch st @ take 1 (readings_q (drone st))"
  "batch_anomalies (snd (queue_reading st)) =
     batch_anomalies st @ map anomaly_of (filter is_anomaly (take 1 (readings_q (drone st))))"
  "readings_q (drone (snd (queue_reading st))) = drop 1 (readings_q (drone st))"
  "gui_q (drone (snd (queue_reading st))) = gui_q (drone st)"
  "central_received (drone (snd (queue_reading st))) = central_received (drone st)"
  "unsent_dir (drone (snd (queue_reading st))) = unsent_dir (drone st)"
  "battery (drone (snd (queue_reading st))) = battery (drone st)"
  by (simp_all add: queue_reading_def Let_def split: list.split)

lemma flush_batch_skip:
  "returning (battery (drone st)) \<or> length (batch st) < FORWARD_BATCH \<Longrightarrow>
     flush_batch j io st = st"
  by (auto simp add: flush_batch_def)

lemma flush_batch_battery [simp]:
  "battery (drone (flush_batch j io st)) = battery (drone st)"
  by (simp add: flush_batch_def)

lemma forward_iteration_battery:
  "battery (drone (forward_iteration j env st)) =
     battery (snd (battery_tick (current_time env) (drone st)))"
  by (simp add: forward_iteration_def Let_def queue_reading_fields case_prod_beta)


lemma forward_iteration_leave:
  "fst (battery_tick (current_time env) (drone st)) \<Longrightarrow>
     forward_iteration j env st = st\<lparr>drone := snd (battery_tick (current_time env) (drone st))\<rparr>"
  by (simp add: forward_iteration_def case_prod_beta)

lemma forward_iteration_stay:
  "\<not> fst (battery_tick (current_time env) (drone st)) \<Longrightarrow>
     forward_iteration j env st =
       (if fst (queue_reading (status_change j (flush_io env)
                  (st\<lparr>drone := snd (battery_tick (current_time env) (drone st))\<rparr>)))
        then snd (queue_reading (status_change j (flush_io env)
                  (st\<lparr>drone := snd (battery_tick (current_time env) (drone st))\<rparr>)))
        else flush_batch j (batch_io env)
               (snd (queue_reading (status_change j (flush_io env)
                  (st\<lparr>drone := snd (battery_tick (current_time env) (drone st))\<rparr>)))))"
  by (simp add: forward_iteration_def case_prod_beta Let_def)

lemma iteration_returning:
  assumes ret: "returning (battery (drone (forward_iteration j env st)))"
  shows "gui_q (drone (forward_iteration j env st)) = gui_q (drone st)"
    and "central_received (drone (forward_iteration j env st)) = central_received (drone st)"
    and "unsent_dir (drone (forward_iteration j env st)) = unsent_dir (drone st)"
    and "\<exists>rs. batch (forward_iteration j env st) = batch st @ rs"
    and "\<exists>as. batch_anomalies (forward_iteration j env st) = batch_anomalies st @ as"
proof -
  let ?t = "battery_tick (current_time env) (drone st)"
  let ?st0 = "st\<lparr>drone := snd ?t\<rparr>"
  let ?st1 = "status_change j (flush_io env) ?st0"
  let ?st2 = "snd (queue_reading ?st1)"
  have all: "gui_q (drone (forward_iteration j env st)) = gui_q (drone st) \<and>
      central_received (drone (forward_iteration j env st)) = central_received (drone st) \<and>
      unsent_dir (drone (forward_iteration j env st)) = unsent_dir (drone st) \<and>
      (\<exists>rs. batch (forward_iteration j env st) = batch st @ rs) \<and>
      (\<exists>as. batch_anomalies (forward_iteration j env st) = batch_anomalies st @ as)"
  proof (cases "fst ?t")
    case True
    then show ?thesis by (simp add: forward_iteration_leave)
  next
    case False
    from ret have r0: "returning (battery (drone ?st0))"
      by (simp add: forward_iteration_battery)
    then have quiet: "\<not> (last_known_returning_status ?st0 \<and> \<not> returning (battery (drone ?st0)))"
      by simp
    from r0 have "returning (battery (drone ?st2))"
      by (simp add: queue_reading_fields)
    then have "flush_batch j (batch_io env) ?st2 = ?st2"
      by (simp add: flush_batch_skip)
    with False have eq: "forward_iteration j env st = ?st2"
      by (simp add: forward_iteration_stay)
    show ?thesis
      unfolding eq
      by (simp add: queue_reading_fields status_change_quiet [OF quiet])
  qed
  from all show "gui_q (drone (forward_iteration j env st)) = gui_q (drone st)"
    and "central_received (drone (forward_iteration j env st)) = central_received (drone st)"
    and "unsent_dir (drone (forward_iteration j env st)) = unsent_dir (drone st)"
    and "\<exists>rs. batch (forward_iteration j env st) = batch st @ rs"
    and "\<exists>as. batch_anomalies (forward_iteration j env st) = batch_anomalies st @ as"
    by blast+
qed

lemma iteration_flush:
  assumes stay: "\<not> fst (battery_tick (current_time env) (drone st))"
    and lk: "last_known_returning_status st"
    and nr: "\<not> returning (battery (drone (forward_iteration j env st)))"
    and ne: "batch st \<noteq> []"
  shows "forward_iteration j env st =
     snd (queue_reading
       (st\<lparr>drone := send_report j (flush_io env)
                 ((snd (battery_tick (current_time env) (drone st)))
                    \<lparr>charging_started_log_sent := False\<rparr>)
                 (map as_object (batch st)) (batch_anomalies st),
           batch := [], batch_anomalies := [], last_known_returning_status := False\<rparr>))"
proof -
  let ?t = "battery_tick (current_time env) (drone st)"
  let ?st0 = "st\<lparr>drone := snd ?t\<rparr>"
  let ?st1 = "status_change j (flush_io env) ?st0"
  let ?st2 = "snd (queue_reading ?st1)"
  from nr have n0: "\<not> returning (battery (drone ?st0))"
    by (simp add: forward_iteration_battery)
  from lk n0 ne have st1: "?st1 =
     ?st0\<lparr>drone := send_report j (flush_io env)
                 ((drone ?st0)\<lparr>charging_started_log_sent := False\<rparr>)
                 (map as_object (batch ?st0)) (batch_anomalies ?st0),
           batch := [], batch_anomalies := [], last_known_returning_status := False\<rparr>"
    by (intro status_change_flush) simp_all
  have "batch ?st1 = []" by (subst st1) simp
  then have "length (batch ?st2) \<le> 1"
    by (simp add: queue_reading_fields)
  then have "length (batch ?st2) < FORWARD_BATCH"
    by (simp add: FORWARD_BATCH_def)
  then have "flush_batch j (batch_io env) ?st2 = ?st2"
    by (simp add: flush_batch_skip)
  with stay have "forward_iteration j env st = ?st2"
    by (simp add: forward_iteration_stay)
  then show ?thesis
    by (simp add: st1)
qed


lemma battery_tick_leave:
  "fst (battery_tick now d) \<Longrightarrow>
     EFFECTIVE_BATTERY_TICK_INTERVAL \<le> now - last_battery_tick_time d \<and>
     level (battery (snd (battery_tick now d))) \<le> 0"
  by (simp add: battery_tick_def Let_def case_prod_beta stop_def split: if_splits)

lemma tick_empty_returning:
  assumes "level (tick b c) \<le> 0" and "0 < LOW_BATTERY_THRESHOLD b"
  shows "returning (tick b c)"
proof (cases "returning b")
  case True
  with assms(1) show ?thesis
    by (simp add: tick_returning [of b c] CRITICAL_BATTERY_THRESHOLD_def)
next
  case False
  with assms show ?thesis
    by (simp add: tick_returning [of b c])
qed

lemma leave_returning:
  assumes "fst (battery_tick now d)" and "0 < LOW_BATTERY_THRESHOLD (battery d)"
  shows "returning (battery (snd (battery_tick now d)))"
proof -
  from battery_tick_leave [OF assms(1)]
  have due: "EFFECTIVE_BATTERY_TICK_INTERVAL \<le> now - last_battery_tick_time d"
    and lv: "level (battery (snd (battery_tick now d))) \<le> 0"
    by simp_all
  let ?c = "returning (battery d) \<and> \<not> 0 < travel_ticks_remaining d"
  from due have b: "battery (snd (battery_tick now d)) = tick (battery d) ?c"
    by (simp add: battery_tick_battery)
  from lv have "level (tick (battery d) ?c) \<le> 0" by (simp only: b)
  with assms(2) have "returning (tick (battery d) ?c)"
    by (intro tick_empty_returning)
  then show ?thesis by (simp only: b)
qed

lemma loop_returning:
  "\<forall>s \<in> set (forward_trace j envs st). returning (battery (drone s)) \<Longrightarrow>
     gui_q (drone (forward_loop j envs st)) = gui_q (drone st) \<and>
     central_received (drone (forward_loop j envs st)) = central_received (drone st) \<and>
     unsent_dir (drone (forward_loop j envs st)) = unsent_dir (drone st) \<and>
     (\<exists>rs. batch (forward_loop j envs st) = batch st @ rs)"
proof (induction envs arbitrary: st)
  case Nil
  then show ?case by simp
next
  case (Cons env envs)
  show ?case
  proof (cases "stop_set (drone st)")
    case True
    then show ?thesis by simp
  next
    case False
    let ?it = "forward_iteration j env st"
    from Cons.prems False have r: "returning (battery (drone ?it))"
      and rest: "\<forall>s \<in> set (forward_trace j envs ?it). returning (battery (drone s))"
      by simp_all
    from Cons.IH [OF rest] obtain rs where
      ih: "gui_q (drone (forward_loop j envs ?it)) = gui_q (drone ?it)"
        "central_received (drone (forward_loop j envs ?it)) = central_received (drone ?it)"
        "unsent_dir (drone (forward_loop j envs ?it)) = unsent_dir (drone ?it)"
        "batch (forward_loop j envs ?it) = batch ?it @ rs"
      by blast
    from iteration_returning(4) [OF r] obtain rs0 where b: "batch ?it = batch st @ rs0"
      by blast
    from ih b have "batch (forward_loop j envs ?it) = batch st @ (rs0 @ rs)" by simp
    then have "\<exists>rs. batch (forward_loop j envs ?it) = batch st @ rs" by blast
    with False ih iteration_returning(1-3) [OF r] show ?thesis by simp
  qed
qed

lemma mode_flush_trace:
  "map observe_batch (forward_trace sample_dumps mode_flush_envs (forward_start low_drone)) =
     [(False, 1, 0), (False, 2, 0), (False, 3, 0),
      (True, 3, 0), (True, 3, 0), (True, 3, 0), (True, 3, 0), (True, 3, 0),
      (True, 3, 0), (True, 3, 0), (True, 3, 0), (True, 3, 0), (True, 3, 0),
      (False, 0, 1)]"
  by (simp add: mode_flush_envs_def low_drone_def sample_readings_def upt_rec loop_defs
      send_report_def sample_io_def is_anomaly_def valid_reading_def as_object_def)

lemma mode_flush_result:
  "gui_q (drone (forward_loop sample_dumps mode_flush_envs (forward_start low_drone))) =
     [GuiReport \<lparr>drone_id = ''drone1'', report_timestamp = ''2025-05-14T14:29:39'',
        battery_level = 93, status = ''active'', avg_temperature = 30, avg_humidity = 50,
        sensor_count = 2,
        anomalies = [\<lparr>anomaly_sensor_id = ''s2'', val = [45, 50], ts = ''t2''\<rparr>]\<rparr>] \<and>
   batch (forward_loop sample_dumps mode_flush_envs (forward_start low_drone)) = [] \<and>
   batch_anomalies (forward_loop sample_dumps mode_flush_envs (forward_start low_drone)) = []"
  by (simp add: mode_flush_envs_def low_drone_def sample_readings_def upt_rec loop_defs
      send_report_def sample_io_def is_anomaly_def build_report_def as_object_def
      valid_reading_def anomaly_of_def List.map_filter_simps)


text \<open>
  C3. Let \<open>st'\<close> be the state after one iteration of the forwarding loop from \<open>st\<close>.
  If the battery is returning once the iteration has ticked it (the battery is not
  written later in the iteration), nothing is flushed, however large the batch is: no
  report is put on \<^verbatim>\<open>gui_q\<close>, sent or stored, and the batch and the anomaly list
  only grow. If the battery was returning at the previous iteration and is not any more,
  the loop is not left (it never is at such a step when the low threshold is positive)
  and the batch is not empty, then exactly one report is put out,
  built from the whole batch and carrying the accumulated anomalies, whatever the size of
  the batch; it is delivered or stored as the connection decides; the batch and the
  anomaly list are emptied, so that after the iteration they hold at most the reading
  taken from the queue in that same iteration. Along a whole run of the loop in which
  the battery is returning after every iteration, nothing is flushed. In the scenario of
  the specification three readings are batched, the battery starts returning and
  recharges during ten iterations without a flush, and the iteration that ends the
  return puts out one report of the three readings.
\<close>

theorem C3_mode_flush:
  "(st' = forward_iteration json_dumps env st \<longrightarrow>
      (returning (battery (drone st')) \<longrightarrow>
         gui_q (drone st') = gui_q (drone st) \<and>
         central_received (drone st') = central_received (drone st) \<and>
         unsent_dir (drone st') = unsent_dir (drone st) \<and>
         (\<exists>rs. batch st' = batch st @ rs) \<and>
         (\<exists>as. batch_anomalies st' = batch_anomalies st @ as)) \<and>
      (last_known_returning_status st \<and> \<not> returning (battery (drone st')) \<and>
       batch st \<noteq> [] \<and> \<not> fst (battery_tick (current_time env) (drone st)) \<longrightarrow>
         gui_q (drone st') =
           gui_q (drone st) @
             [GuiReport (build_report (flush_io env) (drone st') (map as_object (batch st))
                (batch_anomalies st))] \<and>
         anomalies (build_report (flush_io env) (drone st') (map as_object (batch st))
                (batch_anomalies st)) = batch_anomalies st \<and>
         (connection (flush_io env) = Delivered \<longrightarrow>
            central_received (drone st') =
              central_received (drone st) @
                [to_bytes json_dumps (build_report (flush_io env) (drone st')
                   (map as_object (batch st)) (batch_anomalies st))] \<and>
            unsent_dir (drone st') = unsent_dir (drone st)) \<and>
         (connection (flush_io env) = OSError \<longrightarrow>
            unsent_dir (drone st') =
              write_bytes (time_time (flush_io env) @ ''.json'')
                (to_bytes json_dumps (build_report (flush_io env) (drone st')
                   (map as_object (batch st)) (batch_anomalies st)))
                (unsent_dir (drone st)) \<and>
            central_received (drone st') = central_received (drone st)) \<and>
         batch st' = take 1 (readings_q (drone st)) \<and>
         batch_anomalies st' =
           map anomaly_of (filter is_anomaly (take 1 (readings_q (drone st))))) \<and>
      (0 < LOW_BATTERY_THRESHOLD (battery (drone st)) \<and> \<not> returning (battery (drone st')) \<longrightarrow>
         \<not> fst (battery_tick (current_time env) (drone st)))) \<and>
   ((\<forall>s \<in> set (forward_trace json_dumps envs st0). returning (battery (drone s))) \<longrightarrow>
      gui_q (drone (forward_loop json_dumps envs st0)) = gui_q (drone st0) \<and>
      central_received (drone (forward_loop json_dumps envs st0)) = central_received (drone st0) \<and>
      unsent_dir (drone (forward_loop json_dumps envs st0)) = unsent_dir (drone st0) \<and>
      (\<exists>rs. batch (forward_loop json_dumps envs st0) = batch st0 @ rs)) \<and>
   FORWARD_BATCH = 5 \<and>
   map observe_batch (forward_trace sample_dumps mode_flush_envs (forward_start low_drone)) =
     [(False, 1, 0), (False, 2, 0), (False, 3, 0),
      (True, 3, 0), (True, 3, 0), (True, 3, 0), (True, 3, 0), (True, 3, 0),
      (True, 3, 0), (True, 3, 0), (True, 3, 0), (True, 3, 0), (True, 3, 0),
      (False, 0, 1)] \<and>
   gui_q (drone (forward_loop sample_dumps mode_flush_envs (forward_start low_drone))) =
     [GuiReport \<lparr>drone_id = ''drone1'', report_timestamp = ''2025-05-14T14:29:39'',
        battery_level = 93, status = ''active'', avg_temperature = 30, avg_humidity = 50,
        sensor_count = 2,
        anomalies = [\<lparr>anomaly_sensor_id = ''s2'', val = [45, 50], ts = ''t2''\<rparr>]\<rparr>] \<and>
   batch (forward_loop sample_dumps mode_flush_envs (forward_start low_drone)) = [] \<and>
   batch_anomalies (forward_loop sample_dumps mode_flush_envs (forward_start low_drone)) = []"
proof (intro conjI impI)
  show "FORWARD_BATCH = 5" by (simp add: FORWARD_BATCH_def)
next
  assume "\<forall>s \<in> set (forward_trace json_dumps envs st0). returning (battery (drone s))"
  from loop_returning [OF this]
  show "gui_q (drone (forward_loop json_dumps envs st0)) = gui_q (drone st0)"
    and "central_received (drone (forward_loop json_dumps envs st0)) = central_received (drone st0)"
    and "unsent_dir (drone (forward_loop json_dumps envs st0)) = unsent_dir (drone st0)"
    and "\<exists>rs. batch (forward_loop json_dumps envs st0) = batch st0 @ rs"
    by blast+
next
  assume eq: "st' = forward_iteration json_dumps env st"
    and ret: "returning (battery (drone st'))"
  from ret have r: "returning (battery (drone (forward_iteration json_dumps env st)))"
    unfolding eq .
  from iteration_returning [OF r]
  show "gui_q (drone st') = gui_q (drone st)"
    and "central_received (drone st') = central_received (drone st)"
    and "unsent_dir (drone st') = unsent_dir (drone st)"
    and "\<exists>rs. batch st' = batch st @ rs"
    and "\<exists>as. batch_anomalies st' = batch_anomalies st @ as"
    by (simp_all only: eq)
next
  assume eq: "st' = forward_iteration json_dumps env st"
    and tr: "last_known_returning_status st \<and> \<not> returning (battery (drone st')) \<and>
       batch st \<noteq> [] \<and> \<not> fst (battery_tick (current_time env) (drone st))"
  let ?d1 = "(snd (battery_tick (current_time env) (drone st)))\<lparr>charging_started_log_sent := False\<rparr>"
  let ?rpt = "build_report (flush_io env) (drone st') (map as_object (batch st)) (batch_anomalies st)"
  from tr have nr: "\<not> returning (battery (drone (forward_iteration json_dumps env st)))"
    unfolding eq by blast
  from tr have ne: "map as_object (batch st) \<noteq> []" by simp
  have bat: "battery (drone st') = battery ?d1"
    by (simp add: eq forward_iteration_battery)
  have rpt: "build_report (flush_io env) ?d1 (map as_object (batch st)) (batch_anomalies st) = ?rpt"
    by (rule build_report_battery) (simp add: bat)
  from tr nr have st': "st' =
     snd (queue_reading
       (st\<lparr>drone := send_report json_dumps (flush_io env) ?d1
                 (map as_object (batch st)) (batch_anomalies st),
           batch := [], batch_anomalies := [], last_known_returning_status := False\<rparr>))"
    unfolding eq by (intro iteration_flush) simp_all
  have v: "filter valid_reading (map as_object (batch st)) \<noteq> []"
    using ne by simp
  show "gui_q (drone st') = gui_q (drone st) @ [GuiReport ?rpt]"
    by (subst st') (simp add: queue_reading_fields send_report_gui_q [OF v] rpt)
  show "anomalies ?rpt = batch_anomalies st"
    by (simp add: build_report_def)
  show "batch st' = take 1 (readings_q (drone st))"
    by (subst st') (simp add: queue_reading_fields)
  show "batch_anomalies st' = map anomaly_of (filter is_anomaly (take 1 (readings_q (drone st))))"
    by (subst st') (simp add: queue_reading_fields)
  {
    assume c: "connection (flush_io env) = Delivered"
    show "central_received (drone st') = central_received (drone st) @ [to_bytes json_dumps ?rpt]"
      by (subst st') (simp add: queue_reading_fields send_report_Delivered [OF v c] rpt)
    show "unsent_dir (drone st') = unsent_dir (drone st)"
      by (subst st') (simp add: queue_reading_fields send_report_Delivered [OF v c])
  }
  {
    assume c: "connection (flush_io env) = OSError"
    show "unsent_dir (drone st') =
        write_bytes (time_time (flush_io env) @ ''.json'') (to_bytes json_dumps ?rpt)
          (unsent_dir (drone st))"
      by (subst st') (simp add: queue_reading_fields send_report_OSError [OF v c] rpt)
    show "central_received (drone st') = central_received (drone st)"
      by (subst st') (simp add: queue_reading_fields send_report_OSError [OF v c])
  }
next
  assume eq: "st' = forward_iteration json_dumps env st"
    and h: "0 < LOW_BATTERY_THRESHOLD (battery (drone st)) \<and> \<not> returning (battery (drone st'))"
  show "\<not> fst (battery_tick (current_time env) (drone st))"
  proof
    assume "fst (battery_tick (current_time env) (drone st))"
    with h have "returning (battery (snd (battery_tick (current_time env) (drone st))))"
      by (intro leave_returning) simp_all
    then have "returning (battery (drone st'))"
      by (simp add: eq forward_iteration_battery)
    with h show False by simp
  qed
next
  show "map observe_batch (forward_trace sample_dumps mode_flush_envs (forward_start low_drone)) =
     [(False, 1, 0), (False, 2, 0), (False, 3, 0),
      (True, 3, 0), (True, 3, 0), (True, 3, 0), (True, 3, 0), (True, 3, 0),
      (True, 3, 0), (True, 3, 0), (True, 3, 0), (True, 3, 0), (True, 3, 0),
      (False, 0, 1)]"
    by (rule mode_flush_trace)
next
  from mode_flush_result
  show "gui_q (drone (forward_loop sample_dumps mode_flush_envs (forward_start low_drone))) =
     [GuiReport \<lparr>drone_id = ''drone1'', report_timestamp = ''2025-05-14T14:29:39'',
        battery_level = 93, status = ''active'', avg_temperature = 30, avg_humidity = 50,
        sensor_count = 2,
        anomalies = [\<lparr>anomaly_sensor_id = ''s2'', val = [45, 50], ts = ''t2''\<rparr>]\<rparr>]"
    and "batch (forward_loop sample_dumps mode_flush_envs (forward_start low_drone)) = []"
    and "batch_anomalies (forward_loop sample_dumps mode_flush_envs (forward_start low_drone)) = []"
    by blast+
qed

text \<open>
  C3 on two states and a short run. At level 50 a returning drone with six batched readings ticks to 60
  and flushes nothing. At level 85 a returning drone with three batched readings ticks to
  95, stops returning, and the iteration puts out one report with the one anomaly and
  leaves the batch empty. Two ticking iterations from the first state, returning after
  each, flush nothing.
\<close>

theorem C3_mode_flush_witness:
  "returning (battery (drone (forward_iteration sample_dumps (tick_env 1) charging_state))) \<and>
   length (batch charging_state) = 6 \<and>
   gui_q (drone (forward_iteration sample_dumps (tick_env 1) charging_state)) = [] \<and>
   central_received (drone (forward_iteration sample_dumps (tick_env 1) charging_state)) = [] \<and>
   unsent_dir (drone (forward_iteration sample_dumps (tick_env 1) charging_state)) = [] \<and>
   last_known_returning_status recharged_state \<and>
   \<not> returning (battery (drone (forward_iteration sample_dumps (tick_env 1) recharged_state))) \<and>
   batch recharged_state \<noteq> [] \<and>
   length (batch recharged_state) < FORWARD_BATCH \<and>
   \<not> fst (battery_tick (current_time (tick_env 1)) (drone recharged_state)) \<and>
   gui_q (drone (forward_iteration sample_dumps (tick_env 1) recharged_state)) =
     [GuiReport (build_report (flush_io (tick_env 1))
        (drone (forward_iteration sample_dumps (tick_env 1) recharged_state))
        (map as_object (batch recharged_state)) (batch_anomalies recharged_state))] \<and>
   batch (forward_iteration sample_dumps (tick_env 1) recharged_state) = [] \<and>
   batch_anomalies (forward_iteration sample_dumps (tick_env 1) recharged_state) = [] \<and>
   map (\<lambda>s. returning (battery (drone s)))
     (forward_trace sample_dumps (map tick_env [1..<3]) charging_state) = [True, True] \<and>
   gui_q (drone (forward_loop sample_dumps (map tick_env [1..<3]) charging_state)) = [] \<and>
   central_received (drone (forward_loop sample_dumps (map tick_env [1..<3]) charging_state)) = [] \<and>
   unsent_dir (drone (forward_loop sample_dumps (map tick_env [1..<3]) charging_state)) = []"
proof -
  let ?envs = "map tick_env [1..<3]"
  have tr: "map (\<lambda>s. returning (battery (drone s)))
      (forward_trace sample_dumps ?envs charging_state) = [True, True]"
    by (simp add: upt_rec loop_defs charging_state_def)
  have "\<forall>s \<in> set (forward_trace sample_dumps ?envs charging_state).
      returning (battery (drone s))"
  proof
    fix s
    assume "s \<in> set (forward_trace sample_dumps ?envs charging_state)"
    then have "returning (battery (drone s)) \<in>
        set (map (\<lambda>s. returning (battery (drone s)))
          (forward_trace sample_dumps ?envs charging_state))"
      by simp
    then show "returning (battery (drone s))" unfolding tr by simp
  qed
  with C3_mode_flush [of _ sample_dumps _ _ ?envs charging_state]
  have "gui_q (drone (forward_loop sample_dumps ?envs charging_state)) =
        gui_q (drone charging_state) \<and>
      central_received (drone (forward_loop sample_dumps ?envs charging_state)) =
        central_received (drone charging_state) \<and>
      unsent_dir (drone (forward_loop sample_dumps ?envs charging_state)) =
        unsent_dir (drone charging_state)"
    by blast
  then have r3: "gui_q (drone (forward_loop sample_dumps ?envs charging_state)) = [] \<and>
      central_received (drone (forward_loop sample_dumps ?envs charging_state)) = [] \<and>
      unsent_dir (drone (forward_loop sample_dumps ?envs charging_state)) = []"
    by (simp add: charging_state_def DroneEdge_init_def)
  let ?a = "forward_iteration sample_dumps (tick_env 1) charging_state"
  let ?b = "forward_iteration sample_dumps (tick_env 1) recharged_state"
  have ra: "returning (battery (drone ?a))"
    by (simp add: forward_iteration_battery battery_tick_battery charging_state_def
        tick_env_def env_at_def DroneEdge_init_def Battery_init_def tick_def Let_def
        EFFECTIVE_BATTERY_TICK_INTERVAL_def CRITICAL_BATTERY_THRESHOLD_def)
  have la: "length (batch charging_state) = 6"
    by (simp add: charging_state_def sample_readings_def)
  have a0: "gui_q (drone charging_state) = []" "central_received (drone charging_state) = []"
    "unsent_dir (drone charging_state) = []"
    by (simp_all add: charging_state_def DroneEdge_init_def)
  from C3_mode_flush [of ?a sample_dumps "tick_env 1" charging_state] ra
  have "gui_q (drone ?a) = gui_q (drone charging_state) \<and>
      central_received (drone ?a) = central_received (drone charging_state) \<and>
      unsent_dir (drone ?a) = unsent_dir (drone charging_state)"
    by blast
  then have r1: "gui_q (drone ?a) = [] \<and> central_received (drone ?a) = [] \<and>
      unsent_dir (drone ?a) = []"
    by (simp only: a0)
  have pb: "last_known_returning_status recharged_state \<and> \<not> returning (battery (drone ?b)) \<and>
      batch recharged_state \<noteq> [] \<and>
      \<not> fst (battery_tick (current_time (tick_env 1)) (drone recharged_state))"
    by (simp add: forward_iteration_battery battery_tick_battery recharged_state_def
        tick_env_def env_at_def DroneEdge_init_def Battery_init_def tick_def Let_def
        EFFECTIVE_BATTERY_TICK_INTERVAL_def CRITICAL_BATTERY_THRESHOLD_def
        battery_tick_def should_charge_this_tick_def sample_readings_def)
  have lb: "length (batch recharged_state) < FORWARD_BATCH"
    by (simp add: recharged_state_def sample_readings_def FORWARD_BATCH_def)
  have b0: "gui_q (drone recharged_state) = []" "readings_q (drone recharged_state) = []"
    by (simp_all add: recharged_state_def DroneEdge_init_def)
  from C3_mode_flush [of ?b sample_dumps "tick_env 1" recharged_state] pb
  have "gui_q (drone ?b) =
      gui_q (drone recharged_state) @
        [GuiReport (build_report (flush_io (tick_env 1)) (drone ?b)
           (map as_object (batch recharged_state)) (batch_anomalies recharged_state))] \<and>
      batch ?b = take 1 (readings_q (drone recharged_state)) \<and>
      batch_anomalies ?b =
        map anomaly_of (filter is_anomaly (take 1 (readings_q (drone recharged_state))))"
    by blast
  then have r2: "gui_q (drone ?b) =
        [GuiReport (build_report (flush_io (tick_env 1)) (drone ?b)
           (map as_object (batch recharged_state)) (batch_anomalies recharged_state))] \<and>
      batch ?b = [] \<and> batch_anomalies ?b = []"
    by (simp add: b0)
  from ra la r1 pb lb r2 tr r3 show ?thesis by blast
qed


text \<open>
  The travel countdown of a drone stays within 0..2: the constructor, every iteration of
  the forwarding loop and both operator commands keep it there.
\<close>

lemma travel_ok_init: "travel_ok (DroneEdge_init now files)"
  by (simp add: travel_ok_def DroneEdge_init_def)

lemma travel_ok_should_charge: "travel_ok d \<Longrightarrow> travel_ok (snd (should_charge_this_tick d))"
  by (simp add: travel_ok_def should_charge_this_tick_def)

lemma travel_ok_battery_tick: "travel_ok d \<Longrightarrow> travel_ok (snd (battery_tick now d))"
  using travel_ok_should_charge [of d]
  by (simp add: travel_ok_def battery_tick_def Let_def case_prod_beta stop_def)

lemma travel_ok_send_report: "travel_ok d \<Longrightarrow> travel_ok (send_report j io d rs al)"
  by (simp add: travel_ok_def)

lemma travel_ok_status_change:
  "travel_ok (drone st) \<Longrightarrow> travel_ok (drone (status_change j io st))"
  by (simp add: travel_ok_def status_change_def Let_def)

lemma travel_ok_queue_reading:
  "travel_ok (drone st) \<Longrightarrow> travel_ok (drone (snd (queue_reading st)))"
  by (simp add: travel_ok_def queue_reading_def Let_def split: list.split)

lemma travel_ok_flush_batch:
  "travel_ok (drone st) \<Longrightarrow> travel_ok (drone (flush_batch j io st))"
  by (simp add: travel_ok_def flush_batch_def)

lemma travel_ok_forward_iteration:
  assumes "travel_ok (drone st)"
  shows "travel_ok (drone (forward_iteration j env st))"
proof (cases "fst (battery_tick (current_time env) (drone st))")
  case True
  with assms show ?thesis
    by (simp add: forward_iteration_leave travel_ok_battery_tick)
next
  case False
  let ?st0 = "st\<lparr>drone := snd (battery_tick (current_time env) (drone st))\<rparr>"
  from assms have "travel_ok (drone ?st0)" by (simp add: travel_ok_battery_tick)
  then have "travel_ok (drone (snd (queue_reading (status_change j (flush_io env) ?st0))))"
    by (intro travel_ok_queue_reading travel_ok_status_change)
  with False show ?thesis
    by (simp add: forward_iteration_stay travel_ok_flush_batch)
qed

lemma travel_ok_manual_drain: "travel_ok d \<Longrightarrow> travel_ok (manual_drain_battery d amount)"
  by (simp add: travel_ok_def manual_drain_battery_def Let_def)

lemma travel_ok_set_threshold:
  "travel_ok d \<Longrightarrow> travel_ok (snd (set_low_battery_threshold d n))"
  by (simp add: travel_ok_def set_low_battery_threshold_def Let_def)

lemma travel_ok_forward_loop:
  "travel_ok (drone st) \<Longrightarrow> travel_ok (drone (forward_loop j envs st))"
  by (induction envs arbitrary: st) (simp_all add: travel_ok_forward_iteration)

lemma scenario_trace:
  "map observe (forward_trace sample_dumps (map tick_env [1..<38])
      (forward_start (DroneEdge_init 0 []))) =
     [(97, False, 0), (94, False, 0), (91, False, 0), (88, False, 0),
      (85, False, 0), (82, False, 0), (79, False, 0), (76, False, 0),
      (73, False, 0), (70, False, 0), (67, False, 0), (64, False, 0),
      (61, False, 0), (58, False, 0), (55, False, 0), (52, False, 0),
      (49, False, 0), (46, False, 0), (43, False, 0), (40, False, 0),
      (37, False, 0), (34, False, 0), (31, False, 0), (28, False, 0),
      (25, False, 0), (22, False, 0), (19, True, 2), (16, True, 1),
      (13, True, 0), (23, True, 0), (33, True, 0), (43, True, 0), (53, True, 0),
      (63, True, 0), (73, True, 0), (83, True, 0), (93, False, 0)]"
  by (simp add: upt_rec loop_defs)

text \<open>
  C4. The flag with which the battery is ticked is true exactly when the battery is
  returning and the travel countdown is not above zero (it is zero then, since the
  countdown is never negative); when a tick is due the battery of the drone becomes the battery ticked with
  that flag, and when none is due the battery is untouched. In the run of the
  specification (a new drone: level 100, drain 3, recharge 10, low threshold 20; one
  tick per iteration; each entry is the level, the flag \<^const>\<open>returning\<close> and the
  travel countdown after the iteration) tick 27 brings the level to 19, sets
  \<^const>\<open>returning\<close> and starts the countdown at 2, ticks 28 and 29 drain to 16 and 13
  while the countdown goes to 1 and 0, and ticks 30 to 37 charge by 10 each, up to 93,
  where \<^const>\<open>returning\<close> is cleared.
\<close>

theorem C4_charging_after_travel:
  "fst (should_charge_this_tick d) =
     (returning (battery d) \<and> \<not> 0 < travel_ticks_remaining d) \<and>
   (0 \<le> travel_ticks_remaining d \<longrightarrow>
      fst (should_charge_this_tick d) =
        (returning (battery d) \<and> travel_ticks_remaining d = 0)) \<and>
   (EFFECTIVE_BATTERY_TICK_INTERVAL \<le> now - last_battery_tick_time d \<longrightarrow>
      battery (snd (battery_tick now d)) = tick (battery d) (fst (should_charge_this_tick d))) \<and>
   (\<not> EFFECTIVE_BATTERY_TICK_INTERVAL \<le> now - last_battery_tick_time d \<longrightarrow>
      battery (snd (battery_tick now d)) = battery d) \<and>
   battery (DroneEdge_init 0 []) = Battery_init 100 3 10 20 \<and>
   map observe (forward_trace sample_dumps (map tick_env [1..<38])
      (forward_start (DroneEdge_init 0 []))) =
     [(97, False, 0), (94, False, 0), (91, False, 0), (88, False, 0),
      (85, False, 0), (82, False, 0), (79, False, 0), (76, False, 0),
      (73, False, 0), (70, False, 0), (67, False, 0), (64, False, 0),
      (61, False, 0), (58, False, 0), (55, False, 0), (52, False, 0),
      (49, False, 0), (46, False, 0), (43, False, 0), (40, False, 0),
      (37, False, 0), (34, False, 0), (31, False, 0), (28, False, 0),
      (25, False, 0), (22, False, 0), (19, True, 2), (16, True, 1),
      (13, True, 0), (23, True, 0), (33, True, 0), (43, True, 0), (53, True, 0),
      (63, True, 0), (73, True, 0), (83, True, 0), (93, False, 0)]"
proof (intro conjI impI)
  show "battery (DroneEdge_init 0 []) = Battery_init 100 3 10 20"
    by (simp add: DroneEdge_init_def DRAIN_RATE_def)
next
  assume "0 \<le> travel_ticks_remaining d"
  then show "fst (should_charge_this_tick d) =
      (returning (battery d) \<and> travel_ticks_remaining d = 0)"
    by (auto simp add: should_charge_flag)
next
  show "map observe (forward_trace sample_dumps (map tick_env [1..<38])
      (forward_start (DroneEdge_init 0 []))) =
     [(97, False, 0), (94, False, 0), (91, False, 0), (88, False, 0),
      (85, False, 0), (82, False, 0), (79, False, 0), (76, False, 0),
      (73, False, 0), (70, False, 0), (67, False, 0), (64, False, 0),
      (61, False, 0), (58, False, 0), (55, False, 0), (52, False, 0),
      (49, False, 0), (46, False, 0), (43, False, 0), (40, False, 0),
      (37, False, 0), (34, False, 0), (31, False, 0), (28, False, 0),
      (25, False, 0), (22, False, 0), (19, True, 2), (16, True, 1),
      (13, True, 0), (23, True, 0), (33, True, 0), (43, True, 0), (53, True, 0),
      (63, True, 0), (73, True, 0), (83, True, 0), (93, False, 0)]"
    by (rule scenario_trace)
qed (simp_all add: should_charge_flag battery_tick_battery)

text \<open>
  C4 on the returning drone at level 85 whose countdown is 0: a tick is due at clock
  reading 1, it charges, and the level is 95.
\<close>

theorem C4_charging_after_travel_witness:
  "0 \<le> travel_ticks_remaining (drone recharged_state) \<and>
   returning (battery (drone recharged_state)) \<and>
   travel_ticks_remaining (drone recharged_state) = 0 \<and>
   fst (should_charge_this_tick (drone recharged_state)) \<and>
   EFFECTIVE_BATTERY_TICK_INTERVAL \<le> 1 - last_battery_tick_time (drone recharged_state) \<and>
   level (battery (snd (battery_tick 1 (drone recharged_state)))) = 95 \<and>
   \<not> EFFECTIVE_BATTERY_TICK_INTERVAL \<le> 1 / 2 - last_battery_tick_time (drone recharged_state) \<and>
   battery (snd (battery_tick (1 / 2) (drone recharged_state))) = battery (drone recharged_state)"
proof -
  let ?d = "drone recharged_state"
  have pre: "0 \<le> travel_ticks_remaining ?d \<and> returning (battery ?d) \<and>
      travel_ticks_remaining ?d = 0 \<and>
      EFFECTIVE_BATTERY_TICK_INTERVAL \<le> 1 - last_battery_tick_time ?d \<and>
      \<not> EFFECTIVE_BATTERY_TICK_INTERVAL \<le> 1 / 2 - last_battery_tick_time ?d"
    by (simp add: recharged_state_def DroneEdge_init_def Battery_init_def
        EFFECTIVE_BATTERY_TICK_INTERVAL_def)
  have lv: "level (tick (battery ?d) True) = 95"
    by (simp add: recharged_state_def DroneEdge_init_def Battery_init_def tick_level)
  from pre C4_charging_after_travel [of ?d 1]
  have c: "fst (should_charge_this_tick ?d)" by blast
  from pre C4_charging_after_travel [of ?d 1]
  have "battery (snd (battery_tick 1 ?d)) = tick (battery ?d) (fst (should_charge_this_tick ?d))"
    by blast
  with c lv have r1: "level (battery (snd (battery_tick 1 ?d))) = 95" by simp
  from pre C4_charging_after_travel [of ?d "1 / 2"]
  have r2: "battery (snd (battery_tick (1 / 2) ?d)) = battery ?d" by blast
  from pre c r1 r2 show ?thesis by blast
qed

section \<open>Properties of the message codec\<close>

lemma first_frame_encoded:
  assumes "CHR 0x0A \<notin> set (json_dumps (asdict obj))"
  shows "first_frame (instance_to_bytes json_dumps obj @ rest) =
     Some (json_dumps (asdict obj), rest)"
proof -
  let ?t = "json_dumps (asdict obj)"
  from assms have all: "\<And>c. c \<in> set ?t \<Longrightarrow> c \<noteq> CHR 0x0A" by auto
  have "takeWhile (\<lambda>c. c \<noteq> CHR 0x0A) (?t @ CHR 0x0A # rest) = ?t"
    using all by (simp add: takeWhile_append2)
  moreover have "dropWhile (\<lambda>c. c \<noteq> CHR 0x0A) (?t @ CHR 0x0A # rest) = CHR 0x0A # rest"
    using all by (simp add: dropWhile_append2)
  ultimately show ?thesis
    by (simp add: first_frame_def instance_to_bytes_def DELIM_def)
qed

lemma new_reading_instance:
  assumes "map fst obj = reading_fields"
  shows "new_instance [''sensor_id'', ''temperature'', ''humidity'']
           [(''timestamp'', PyStr now)] (asdict obj) = Inr obj"
proof -
  from assms obtain a b c d where
    "obj = [(''sensor_id'', a), (''temperature'', b), (''humidity'', c), (''timestamp'', d)]"
    by (auto simp add: reading_fields_def map_eq_Cons_conv)
  then show ?thesis by (simp add: new_instance_def asdict_def)
qed

lemma new_report_instance:
  assumes "map fst obj = report_fields"
  shows "new_instance
           [''drone_id'', ''timestamp'', ''battery_level'', ''status'', ''avg_temperature'',
            ''avg_humidity'', ''sensor_count'', ''anomalies''] [] (asdict obj) = Inr obj"
proof -
  from assms obtain a b c d e f g h where
    "obj = [(''drone_id'', a), (''timestamp'', b), (''battery_level'', c), (''status'', d),
            (''avg_temperature'', e), (''avg_humidity'', f), (''sensor_count'', g),
            (''anomalies'', h)]"
    by (auto simp add: report_fields_def map_eq_Cons_conv)
  then show ?thesis by (simp add: new_instance_def asdict_def)
qed


lemma py_equal_list_self:
  "py_equal_list xs xs = (\<forall>x \<in> set xs. py_equal x x)"
  by (induction xs) auto

lemma py_dict_within_lookup:
  assumes "distinct (map fst kvs')" and "set kvs \<subseteq> set kvs'"
  shows "py_dict_within kvs kvs' = (\<forall>kv \<in> set kvs. py_equal (snd kv) (snd kv))"
  using assms(2)
proof (induction kvs)
  case Nil
  then show ?case by simp
next
  case (Cons kv kvs)
  obtain k x where kv: "kv = (k, x)" by (cases kv)
  with Cons.prems have "(k, x) \<in> set kvs'" by simp
  with assms(1) have "map_of kvs' k = Some x" by simp
  with Cons kv show ?case by simp
qed

lemma py_equal_self:
  "keys_distinct v \<Longrightarrow> py_equal v v = nan_free v"
proof (induction v)
  case (PyList xs)
  then show ?case by (simp add: py_equal_list_self)
next
  case (PyDict kvs)
  from PyDict.prems have d: "distinct (map fst kvs)"
    and sub: "\<forall>kv \<in> set kvs. keys_distinct (snd kv)"
    by simp_all
  have "py_equal (snd kv) (snd kv) = nan_free (snd kv)" if "kv \<in> set kvs" for kv
  proof -
    obtain k x where kv: "kv = (k, x)" by (cases kv)
    with that sub have "keys_distinct x" by auto
    with PyDict.IH [of kv x] that kv show ?thesis by simp
  qed
  with d show ?case
    by (simp add: py_dict_within_lookup)
qed simp_all

lemma instance_eq_self:
  "keys_distinct (asdict obj) \<Longrightarrow> instance_eq obj obj = nan_free (asdict obj)"
proof -
  assume kd: "keys_distinct (asdict obj)"
  then have "py_equal (snd kv) (snd kv) = nan_free (snd kv)" if "kv \<in> set obj" for kv
    using that by (intro py_equal_self) (simp add: asdict_def)
  then show ?thesis
    by (simp add: instance_eq_def py_equal_list_self asdict_def)
qed

lemma py_equal_NaN [simp]: "py_equal x PyNaN = False"
  by (cases x) simp_all

lemma py_equal_list_NaN: "py_equal_list xs ys \<Longrightarrow> PyNaN \<notin> set ys"
  by (induction xs arbitrary: ys) (auto split: list.splits)

lemma instance_eq_NaN:
  assumes "PyNaN \<in> snd ` set obj"
  shows "\<not> instance_eq obj' obj"
proof
  assume "instance_eq obj' obj"
  then have "PyNaN \<notin> set (map snd obj)"
    unfolding instance_eq_def by (rule py_equal_list_NaN)
  with assms show False by simp
qed

lemma reading_instance_plain:
  "map fst (reading_instance r) = reading_fields"
  "keys_distinct (asdict (reading_instance r))"
  "nan_free (asdict (reading_instance r))"
  by (simp_all add: reading_instance_def reading_fields_def asdict_def)

lemma report_instance_plain:
  "map fst (report_instance p) = report_fields"
  "keys_distinct (asdict (report_instance p))"
  "nan_free (asdict (report_instance p))"
  by (auto simp add: report_instance_def report_fields_def asdict_def anomaly_dict_def)


lemma decoded_equals_Inr [simp]: "decoded_equals (Inr obj') obj = instance_eq obj' obj"
  by (simp add: decoded_equals_def)

lemma from_bytes_encoded:
  assumes "json_loads (json_dumps (asdict obj)) = Some (asdict obj)"
    and "map fst obj = reading_fields"
  shows "from_bytes json_loads now (json_dumps (asdict obj)) = Inr obj"
  using assms by (simp add: from_bytes_def new_reading_instance)

lemma decode_report_encoded:
  assumes "json_loads (json_dumps (asdict obj)) = Some (asdict obj)"
    and "map fst obj = report_fields"
  shows "decode_report json_loads (json_dumps (asdict obj)) = Inr obj"
  using assms by (simp add: decode_report_def new_report_instance)

lemma table_codec:
  "json_round_trip table_dumps table_loads (asdict (reading_instance (sample_readings ! 0)))"
  "json_round_trip table_dumps table_loads (asdict (report_instance sample_report))"
  "json_round_trip table_dumps table_loads (asdict nan_reading)"
  by (simp_all add: json_round_trip_def table_dumps_def table_loads_def sample_table_def
      asdict_def reading_instance_def report_instance_def sample_readings_def
      sample_report_def nan_reading_def anomaly_dict_def)

text \<open>
  C8 (as amended). Take \<^verbatim>\<open>json.dumps\<close> and \<^verbatim>\<open>json.loads\<close> to behave on the
  dictionary of the record as their documentation says (\<^const>\<open>json_round_trip\<close>). For
  every \<^verbatim>\<open>SensorReading\<close> and every \<^verbatim>\<open>DroneReport\<close> whose fields have the
  declared types and whose floats are numbers: the receiver cuts exactly the JSON text
  off the encoded bytes, whatever follows them, and does not skip it; the decoder
  (\<^verbatim>\<open>SensorReading.from_bytes\<close>, the inline decoding of the central server) gives
  back an instance with the same fields and values; and that instance is equal to the
  record. For an arbitrary instance of either class the decoder still gives back the
  same fields and values, and the decoded instance is equal to the original exactly when
  no NaN is in it. \<^verbatim>\<open>DroneReport.to_bytes\<close> as used by the delivery is this encoder.
\<close>

theorem C8_round_trip:
  "(json_round_trip json_dumps json_loads (asdict (reading_instance r)) \<longrightarrow>
      first_frame (instance_to_bytes json_dumps (reading_instance r) @ rest) =
        Some (json_dumps (asdict (reading_instance r)), rest) \<and>
      json_dumps (asdict (reading_instance r)) \<noteq> [] \<and>
      from_bytes json_loads now (json_dumps (asdict (reading_instance r))) =
        Inr (reading_instance r) \<and>
      decoded_equals (from_bytes json_loads now (json_dumps (asdict (reading_instance r))))
        (reading_instance r)) \<and>
   (json_round_trip json_dumps json_loads (asdict (report_instance p)) \<longrightarrow>
      first_frame (instance_to_bytes json_dumps (report_instance p) @ rest) =
        Some (json_dumps (asdict (report_instance p)), rest) \<and>
      json_dumps (asdict (report_instance p)) \<noteq> [] \<and>
      decode_report json_loads (json_dumps (asdict (report_instance p))) =
        Inr (report_instance p) \<and>
      decoded_equals (decode_report json_loads (json_dumps (asdict (report_instance p))))
        (report_instance p)) \<and>
   (json_round_trip json_dumps json_loads (asdict obj) \<and> keys_distinct (asdict obj) \<longrightarrow>
      first_frame (instance_to_bytes json_dumps obj @ rest) =
        Some (json_dumps (asdict obj), rest) \<and>
      json_dumps (asdict obj) \<noteq> [] \<and>
      (map fst obj = reading_fields \<longrightarrow>
         from_bytes json_loads now (json_dumps (asdict obj)) = Inr obj \<and>
         decoded_equals (from_bytes json_loads now (json_dumps (asdict obj))) obj =
           nan_free (asdict obj)) \<and>
      (map fst obj = report_fields \<longrightarrow>
         decode_report json_loads (json_dumps (asdict obj)) = Inr obj \<and>
         decoded_equals (decode_report json_loads (json_dumps (asdict obj))) obj =
           nan_free (asdict obj))) \<and>
   to_bytes (\<lambda>p. json_dumps (asdict (report_instance p))) p =
     instance_to_bytes json_dumps (report_instance p)"
proof (intro conjI impI)
  show "to_bytes (\<lambda>p. json_dumps (asdict (report_instance p))) p =
     instance_to_bytes json_dumps (report_instance p)"
    by (simp add: to_bytes_def instance_to_bytes_def)
next
  assume h: "json_round_trip json_dumps json_loads (asdict (reading_instance r))"
  then show "first_frame (instance_to_bytes json_dumps (reading_instance r) @ rest) =
        Some (json_dumps (asdict (reading_instance r)), rest)"
    by (intro first_frame_encoded) (simp add: json_round_trip_def)
  from h show "json_dumps (asdict (reading_instance r)) \<noteq> []"
    by (simp add: json_round_trip_def)
  from h have dec: "from_bytes json_loads now (json_dumps (asdict (reading_instance r))) =
        Inr (reading_instance r)"
    by (intro from_bytes_encoded) (simp_all add: json_round_trip_def reading_instance_plain)
  then show "from_bytes json_loads now (json_dumps (asdict (reading_instance r))) =
        Inr (reading_instance r)" .
  show "decoded_equals (from_bytes json_loads now (json_dumps (asdict (reading_instance r))))
        (reading_instance r)"
    by (simp add: dec instance_eq_self reading_instance_plain)
next
  assume h: "json_round_trip json_dumps json_loads (asdict (report_instance p))"
  then show "first_frame (instance_to_bytes json_dumps (report_instance p) @ rest) =
        Some (json_dumps (asdict (report_instance p)), rest)"
    by (intro first_frame_encoded) (simp add: json_round_trip_def)
  from h show "json_dumps (asdict (report_instance p)) \<noteq> []"
    by (simp add: json_round_trip_def)
  from h have dec: "decode_report json_loads (json_dumps (asdict (report_instance p))) =
        Inr (report_instance p)"
    by (intro decode_report_encoded) (simp_all add: json_round_trip_def report_instance_plain)
  then show "decode_report json_loads (json_dumps (asdict (report_instance p))) =
        Inr (report_instance p)" .
  show "decoded_equals (decode_report json_loads (json_dumps (asdict (report_instance p))))
        (report_instance p)"
    by (simp add: dec instance_eq_self report_instance_plain)
next
  assume h: "json_round_trip json_dumps json_loads (asdict obj) \<and> keys_distinct (asdict obj)"
  then show "first_frame (instance_to_bytes json_dumps obj @ rest) =
        Some (json_dumps (asdict obj), rest)"
    by (intro first_frame_encoded) (simp add: json_round_trip_def)
  from h show "json_dumps (asdict obj) \<noteq> []"
    by (simp add: json_round_trip_def)
  {
    assume f: "map fst obj = reading_fields"
    with h have dec: "from_bytes json_loads now (json_dumps (asdict obj)) = Inr obj"
      by (intro from_bytes_encoded) (simp_all add: json_round_trip_def)
    then show "from_bytes json_loads now (json_dumps (asdict obj)) = Inr obj" .
    from h show "decoded_equals (from_bytes json_loads now (json_dumps (asdict obj))) obj =
        nan_free (asdict obj)"
      by (simp add: dec instance_eq_self)
  }
  {
    assume f: "map fst obj = report_fields"
    with h have dec: "decode_report json_loads (json_dumps (asdict obj)) = Inr obj"
      by (intro decode_report_encoded) (simp_all add: json_round_trip_def)
    then show "decode_report json_loads (json_dumps (asdict obj)) = Inr obj" .
    from h show "decoded_equals (decode_report json_loads (json_dumps (asdict obj))) obj =
        nan_free (asdict obj)"
      by (simp add: dec instance_eq_self)
  }
qed

text \<open>
  C8 as stated fails for the reading \<^verbatim>\<open>SensorReading('s1', float('nan'), 40.0, 't1')\<close>,
  whose temperature is NaN. The library functions do their part: the text is one line,
  it is cut off the buffer as it was written, and the decoder gives back the same fields
  and values, the temperature NaN among them. But the decoded record is not equal to the
  original, since NaN is unequal to NaN.
\<close>

theorem C8_counterexample:
  "json_round_trip table_dumps table_loads (asdict nan_reading) \<and>
   map fst nan_reading = reading_fields \<and>
   instance_to_bytes table_dumps nan_reading =
     ''{\"sensor_id\": \"s1\", \"temperature\": NaN, \"humidity\": 40.0, \"timestamp\": \"t1\"}'' @ DELIM \<and>
   first_frame (instance_to_bytes table_dumps nan_reading) =
     Some (table_dumps (asdict nan_reading), []) \<and>
   from_bytes table_loads ''now'' (table_dumps (asdict nan_reading)) = Inr nan_reading \<and>
   \<not> decoded_equals (from_bytes table_loads ''now'' (table_dumps (asdict nan_reading)))
        nan_reading"
proof -
  have rt: "json_round_trip table_dumps table_loads (asdict nan_reading)"
    by (rule table_codec)
  have fs: "map fst nan_reading = reading_fields"
    by (simp add: nan_reading_def reading_fields_def)
  have enc: "instance_to_bytes table_dumps nan_reading =
      ''{\"sensor_id\": \"s1\", \"temperature\": NaN, \"humidity\": 40.0, \"timestamp\": \"t1\"}'' @ DELIM"
    by (simp add: instance_to_bytes_def table_dumps_def sample_table_def asdict_def
        nan_reading_def reading_instance_def report_instance_def sample_readings_def)
  from rt first_frame_encoded [of table_dumps nan_reading "[]"]
  have fr: "first_frame (instance_to_bytes table_dumps nan_reading) =
      Some (table_dumps (asdict nan_reading), [])"
    by (simp add: json_round_trip_def)
  from rt fs have dec: "from_bytes table_loads ''now'' (table_dumps (asdict nan_reading)) =
      Inr nan_reading"
    by (intro from_bytes_encoded) (simp_all add: json_round_trip_def)
  have "PyNaN \<in> snd ` set nan_reading" by (simp add: nan_reading_def)
  then have "\<not> instance_eq nan_reading nan_reading" by (rule instance_eq_NaN)
  then have ne: "\<not> decoded_equals
      (from_bytes table_loads ''now'' (table_dumps (asdict nan_reading))) nan_reading"
    by (simp add: dec)
  from rt fs enc fr dec ne show ?thesis by blast
qed


text \<open>
  C8 with the stand-in for the library: the first sample reading and the sample report
  come back equal, with further bytes waiting in the buffer; the NaN reading comes back
  with the same fields and is not equal.
\<close>

theorem C8_round_trip_witness:
  "json_round_trip table_dumps table_loads (asdict (reading_instance (sample_readings ! 0))) \<and>
   first_frame (instance_to_bytes table_dumps (reading_instance (sample_readings ! 0)) @ ''{next'') =
     Some (''{\"sensor_id\": \"s1\", \"temperature\": 20.0, \"humidity\": 40.0, \"timestamp\": \"t1\"}'', ''{next'') \<and>
   from_bytes table_loads ''now''
     (table_dumps (asdict (reading_instance (sample_readings ! 0)))) =
     Inr (reading_instance (sample_readings ! 0)) \<and>
   decoded_equals (from_bytes table_loads ''now''
     (table_dumps (asdict (reading_instance (sample_readings ! 0)))))
     (reading_instance (sample_readings ! 0)) \<and>
   json_round_trip table_dumps table_loads (asdict (report_instance sample_report)) \<and>
   decode_report table_loads (table_dumps (asdict (report_instance sample_report))) =
     Inr (report_instance sample_report) \<and>
   decoded_equals (decode_report table_loads
     (table_dumps (asdict (report_instance sample_report)))) (report_instance sample_report) \<and>
   json_round_trip table_dumps table_loads (asdict nan_reading) \<and>
   keys_distinct (asdict nan_reading) \<and>
   map fst nan_reading = reading_fields \<and>
   \<not> nan_free (asdict nan_reading) \<and>
   from_bytes table_loads ''now'' (table_dumps (asdict nan_reading)) = Inr nan_reading \<and>
   \<not> decoded_equals (from_bytes table_loads ''now'' (table_dumps (asdict nan_reading)))
        nan_reading"
proof -
  let ?r = "sample_readings ! 0"
  note inst = C8_round_trip
    [of table_dumps table_loads ?r "''{next''" "''now''" sample_report nan_reading]
  have line: "table_dumps (asdict (reading_instance ?r)) =
      ''{\"sensor_id\": \"s1\", \"temperature\": 20.0, \"humidity\": 40.0, \"timestamp\": \"t1\"}''"
    by (simp add: table_dumps_def sample_table_def)
  have nan: "keys_distinct (asdict nan_reading) \<and> map fst nan_reading = reading_fields \<and>
      \<not> nan_free (asdict nan_reading)"
    by (simp add: nan_reading_def asdict_def reading_fields_def)
  from inst table_codec(1)
  have r1: "first_frame (instance_to_bytes table_dumps (reading_instance ?r) @ ''{next'') =
        Some (table_dumps (asdict (reading_instance ?r)), ''{next'') \<and>
      from_bytes table_loads ''now'' (table_dumps (asdict (reading_instance ?r))) =
        Inr (reading_instance ?r) \<and>
      decoded_equals (from_bytes table_loads ''now''
        (table_dumps (asdict (reading_instance ?r)))) (reading_instance ?r)"
    by blast
  then have r1': "first_frame (instance_to_bytes table_dumps (reading_instance ?r) @ ''{next'') =
      Some (''{\"sensor_id\": \"s1\", \"temperature\": 20.0, \"humidity\": 40.0, \"timestamp\": \"t1\"}'', ''{next'')"
    by (simp only: line)
  from inst table_codec(2)
  have r2: "decode_report table_loads (table_dumps (asdict (report_instance sample_report))) =
        Inr (report_instance sample_report) \<and>
      decoded_equals (decode_report table_loads
        (table_dumps (asdict (report_instance sample_report)))) (report_instance sample_report)"
    by blast
  from inst table_codec(3) nan
  have r3: "from_bytes table_loads ''now'' (table_dumps (asdict nan_reading)) = Inr nan_reading \<and>
      decoded_equals (from_bytes table_loads ''now'' (table_dumps (asdict nan_reading)))
        nan_reading = nan_free (asdict nan_reading)"
    by blast
  with nan have r3': "\<not> decoded_equals
      (from_bytes table_loads ''now'' (table_dumps (asdict nan_reading))) nan_reading"
    by blast
  from table_codec r1 r1' r2 nan r3 r3' show ?thesis by blast
qed

end
